theory Spec2Isabelle
  imports Complex_Main "HOL-Library.Word" "HOL-Library.AList"
begin

chapter \<open>The request routing core of the gateway inference extension\<close>

text \<open>
  A shallow embedding of three Go source files: the prefix cache scorer plugin
  (\<open>hashPrompt\<close>, \<open>matchLongestPrefix\<close>, \<open>Score\<close>, \<open>PreRequest\<close>), the extraction of
  the request data (\<open>ExtractRequestData\<close>) and the director (\<open>HandleRequest\<close>,
  \<open>admitRequest\<close>, \<open>getCandidatePodsForScheduling\<close>, \<open>prepareRequest\<close>).

  Functions keep their Go names.  State that a function changes is passed in and returned;
  an interface or a library function is an argument; a panic is a value.  The model is
  sequential: during one call nobody else changes the indexer, the plugin state store or
  the datastore.  Logging is left out, but for the error that \<open>PreRequest\<close> logs when it
  cannot read its state.
\<close>

section \<open>Go values shared by the three source files\<close>

text \<open>
  A Go function either returns or panics.  Every run-time panic that the modelled
  code can raise is a constructor of \<open>panic\<close>; a function that can panic returns
  an \<open>outcome\<close>.
\<close>

datatype panic =
    NilDereference
  | IndexOutOfRange
  | SliceBoundsOutOfRange
  | IntegerDivideByZero
  | MakeSliceCapOutOfRange
  | InterfaceConversion

datatype 'a outcome = Panic panic | Return 'a

text \<open>
  Go's \<open>int\<close> is a 64-bit two's complement integer on the platforms the gateway runs
  on: \<open>+\<close> and \<open>*\<close> wrap around, \<open>sint\<close> reads the signed value.  \<open>byte\<close> is
  \<open>uint8\<close>; a Go \<open>string\<close> is a sequence of bytes, as an Isabelle \<open>string\<close> is.
\<close>

type_synonym go_int = "64 word"
type_synonym byte = "8 word"

definition bytesOf :: "string \<Rightarrow> byte list" where
  \<comment> \<open>the conversion \<open>[]byte(s)\<close>\<close>
  "bytesOf s = map of_char s"

text \<open>The dynamic type \<open>any\<close> as produced by decoding JSON.  The payload of a number
  is never inspected by the modelled code.\<close>

datatype any =
    ANil
  | ABool bool
  | ANumber int
  | AString string
  | AList "any list"
  | AMap "(string \<times> any) list"

text \<open>\<open>errutil.Error\<close> is a struct of a code and a message; every other Go
  \<open>error\<close> value is kept by its message.\<close>

datatype code = BadRequest | InferencePoolResourceExhausted | ServiceUnavailable | Internal

datatype error = Error (Code: code) (Msg: string) | ForeignError string

section \<open>The prefix cache scorer plugin (package prefix)\<close>

subsection \<open>Types\<close>

type_synonym BlockHash = "64 word"

record NamespacedName =
  Namespace :: string
  Name :: string

type_synonym ServerID = NamespacedName

type_synonym podSet = "ServerID set"

record Config =
  HashBlockSize :: go_int
  MaxPrefixBlocksToMatch :: go_int
  LRUCapacityPerServer :: go_int

record SchedulingContextState =
  PrefixHashes :: "BlockHash list"
  PrefixCacheServers :: "ServerID \<rightharpoonup> int"

record CompletionsRequest =
  Prompt :: string

record Message =
  Role :: string
  Content :: string

record ChatCompletionsRequest =
  Messages :: "Message list"
  Tools :: "any list"
  Documents :: "any list"
  ChatTemplate :: string
  ReturnAssistantTokensMask :: bool
  ContinueFinalMessage :: bool
  AddGenerationPrompt :: bool
  ChatTemplateKWArgs :: "(string \<times> any) list"

record LLMRequestData =
  Completions :: "CompletionsRequest option"
  ChatCompletions :: "ChatCompletionsRequest option"

record LLMRequest =
  RequestId :: string
  TargetModel :: string
  Data :: "LLMRequestData option"
  Headers :: "(string \<times> string) list"

subsection \<open>hashPrompt\<close>

definition toBytes :: "BlockHash \<Rightarrow> byte list" where
  \<comment> \<open>\<open>binary.LittleEndian.PutUint64\<close> into a fresh 8-byte slice\<close>
  "toBytes i = map (\<lambda>k. ucast (drop_bit (8 * k) i)) [0..<8]"

definition getUserInputBytes ::
  "(Message list \<Rightarrow> error + byte list) \<Rightarrow> LLMRequestData \<Rightarrow> (error + byte list) outcome" where
  \<comment> \<open>the first argument is \<open>json.Marshal\<close> at the type \<open>[]Message\<close>\<close>
  "getUserInputBytes jsonMarshal d =
     (case Completions d of
        Some c \<Rightarrow> Return (Inr (bytesOf (Prompt c)))
      | None \<Rightarrow>
          (case ChatCompletions d of
             None \<Rightarrow> Panic NilDereference
           | Some ch \<Rightarrow> Return (jsonMarshal (Messages ch))))"

definition goSlice :: "'a list \<Rightarrow> int \<Rightarrow> int \<Rightarrow> 'a list" where
  \<comment> \<open>\<open>s[lo:hi]\<close> once the bounds check has passed\<close>
  "goSlice s lo hi = drop (nat lo) (take (nat hi) s)"

text \<open>
  The block loop of \<open>hashPrompt\<close>:
  \<^verbatim>\<open>for i := 0; i+cacheBlockSize <= len(userInput); i += cacheBlockSize\<close>.
  The first argument is \<open>xxhash.Sum64\<close> of the bytes written to the digest since its
  last reset.  The slice expression \<open>userInput[i : i+cacheBlockSize]\<close> panics unless
  \<open>0 <= i <= i+cacheBlockSize <= cap(userInput)\<close>; the loop condition has already
  bounded \<open>i+cacheBlockSize\<close> by the length.  \<open>None\<close> is a loop that never exits.
\<close>

partial_function (option) hashLoop ::
  "(byte list \<Rightarrow> 64 word) \<Rightarrow> byte list \<Rightarrow> go_int \<Rightarrow> go_int \<Rightarrow> BlockHash \<Rightarrow> BlockHash list
     \<Rightarrow> BlockHash list outcome option" where
  "hashLoop xxhash userInput cacheBlockSize i prevBlockHash res =
     (if sint (i + cacheBlockSize) \<le> int (length userInput) then
        (if 0 \<le> sint i \<and> sint i \<le> sint (i + cacheBlockSize) then
           hashLoop xxhash userInput cacheBlockSize (i + cacheBlockSize)
             (xxhash (goSlice userInput (sint i) (sint (i + cacheBlockSize)) @ toBytes prevBlockHash))
             (res @ [xxhash (goSlice userInput (sint i) (sint (i + cacheBlockSize)) @ toBytes prevBlockHash)])
         else Some (Panic SliceBoundsOutOfRange))
      else Some (Return res))"

definition truncDiv :: "int \<Rightarrow> int \<Rightarrow> int" where
  \<comment> \<open>Go's \<open>/\<close> on integers rounds towards zero; the divisor is not zero\<close>
  "truncDiv a b = (if (a < 0) = (b < 0) then \<bar>a\<bar> div \<bar>b\<bar> else - (\<bar>a\<bar> div \<bar>b\<bar>))"

text \<open>
  \<open>make([]BlockHash, 0, len(userInput)/cacheBlockSize)\<close> divides before the loop is
  entered: a zero divisor panics, and so does a negative capacity.
\<close>

definition hashBlocks ::
  "(byte list \<Rightarrow> 64 word) \<Rightarrow> string \<Rightarrow> byte list \<Rightarrow> go_int \<Rightarrow> BlockHash list outcome option" where
  \<comment> \<open>from \<open>res := make(...)\<close> to the end of \<open>hashPrompt\<close>\<close>
  "hashBlocks xxhash targetModel userInput cacheBlockSize =
     (if cacheBlockSize = 0 then Some (Panic IntegerDivideByZero)
      else if truncDiv (int (length userInput)) (sint cacheBlockSize) < 0
        then Some (Panic MakeSliceCapOutOfRange)
      else hashLoop xxhash userInput cacheBlockSize 0 (xxhash (bytesOf targetModel)) [])"

text \<open>
  The truncation \<open>userInput[:maxPrefixBlocks*cacheBlockSize]\<close> is taken when the input is
  longer than the product, so its bound is below the length; it panics when the product,
  computed in 64 bits, is negative.  A nil slice and an empty one are both \<open>[]\<close>.
\<close>

definition hashPrompt ::
  "(byte list \<Rightarrow> 64 word) \<Rightarrow> (Message list \<Rightarrow> error + byte list) \<Rightarrow> LLMRequest option
     \<Rightarrow> go_int \<Rightarrow> go_int \<Rightarrow> BlockHash list outcome option" where
  "hashPrompt xxhash jsonMarshal request cacheBlockSize maxPrefixBlocks =
     (case request of
        None \<Rightarrow> Some (Return [])
      | Some req \<Rightarrow>
          (case Data req of
             None \<Rightarrow> Some (Return [])
           | Some d \<Rightarrow>
               (case getUserInputBytes jsonMarshal d of
                  Panic p \<Rightarrow> Some (Panic p)
                | Return (Inl err) \<Rightarrow> Some (Return [])
                | Return (Inr userInput) \<Rightarrow>
                    if int (length userInput) < sint cacheBlockSize then Some (Return [])
                    else if int (length userInput) > sint (cacheBlockSize * maxPrefixBlocks) then
                      (if sint (maxPrefixBlocks * cacheBlockSize) < 0
                         then Some (Panic SliceBoundsOutOfRange)
                       else hashBlocks xxhash (TargetModel req)
                              (goSlice userInput 0 (sint (maxPrefixBlocks * cacheBlockSize)))
                              cacheBlockSize)
                    else hashBlocks xxhash (TargetModel req) userInput cacheBlockSize)))"

text \<open>
  What the block loop appends, as a structurally recursive function: \<open>n\<close> chained
  hashes of the blocks of \<open>bs\<close> bytes that start at offset \<open>off\<close>, the first
  chained to \<open>prev\<close>.
\<close>

fun chainFrom :: "(byte list \<Rightarrow> 64 word) \<Rightarrow> byte list \<Rightarrow> nat \<Rightarrow> nat \<Rightarrow> BlockHash \<Rightarrow> nat \<Rightarrow> BlockHash list" where
  "chainFrom xx inp bs off prev 0 = []"
| "chainFrom xx inp bs off prev (Suc n) =
     xx (take bs (drop off inp) @ toBytes prev)
       # chainFrom xx inp bs (off + bs) (xx (take bs (drop off inp) @ toBytes prev)) n"

subsection \<open>The chained hash in the words of the specification\<close>

text \<open>
  \<open>h\<^sub>0 = xxhash64(target_model)\<close> and
  \<open>h\<^bsub>i+1\<^esub> = xxhash64(block\<^sub>i || little_endian_u64(h\<^sub>i))\<close>, where block \<open>i\<close> is the bytes
  \<open>[i * block_size, (i + 1) * block_size)\<close> of the user input.
\<close>

definition littleEndianU64 :: "64 word \<Rightarrow> byte list" where
  "littleEndianU64 h = map (\<lambda>k. of_nat (unat h div 256 ^ k mod 256)) [0..<8]"

fun chainedHash :: "(byte list \<Rightarrow> 64 word) \<Rightarrow> string \<Rightarrow> byte list \<Rightarrow> nat \<Rightarrow> nat \<Rightarrow> 64 word" where
  "chainedHash xxhash64 target_model input block_size 0 = xxhash64 (bytesOf target_model)"
| "chainedHash xxhash64 target_model input block_size (Suc i) =
     xxhash64 (take block_size (drop (i * block_size) input)
               @ littleEndianU64 (chainedHash xxhash64 target_model input block_size i))"

subsection \<open>matchLongestPrefix\<close>

text \<open>
  \<open>Indexer\<close> is an interface: an implementation is a state of some type \<open>'ix\<close> with the two
  methods.  \<open>Get\<close> returns a \<open>podSet\<close>, a Go map used as a set.
\<close>

record 'ix Indexer =
  Get :: "'ix \<Rightarrow> BlockHash \<Rightarrow> podSet"
  Add :: "'ix \<Rightarrow> BlockHash list \<Rightarrow> ServerID \<Rightarrow> 'ix"

definition lookup0 :: "('k \<rightharpoonup> int) \<Rightarrow> 'k \<Rightarrow> int" where
  \<comment> \<open>reading a \<open>map[K]int\<close>: a missing key reads as 0\<close>
  "lookup0 m k = (case m k of None \<Rightarrow> 0 | Some v \<Rightarrow> v)"

definition incrementAll :: "podSet \<Rightarrow> (ServerID \<rightharpoonup> int) \<Rightarrow> (ServerID \<rightharpoonup> int)" where
  \<comment> \<open>\<open>for server := range cachedServers { res[server]++ }\<close>; the increments of distinct
     keys are independent of the iteration order\<close>
  "incrementAll cachedServers res =
     (\<lambda>server. if server \<in> cachedServers then Some (lookup0 res server + 1) else res server)"

fun matchLoop :: "(BlockHash \<Rightarrow> podSet) \<Rightarrow> BlockHash list \<Rightarrow> (ServerID \<rightharpoonup> int) \<Rightarrow> (ServerID \<rightharpoonup> int)" where
  "matchLoop get [] res = res"
| "matchLoop get (hash # hashes) res =
     (if get hash = {} then res
      else matchLoop get hashes (incrementAll (get hash) res))"

definition matchLongestPrefix :: "(BlockHash \<Rightarrow> podSet) \<Rightarrow> BlockHash list \<Rightarrow> (ServerID \<rightharpoonup> int)" where
  \<comment> \<open>the first argument is \<open>p.indexer.Get\<close>\<close>
  "matchLongestPrefix get hashes = matchLoop get hashes Map.empty"

text \<open>
  The longest contiguous prefix match of a replica, in the words of the specification: the
  number of leading blocks, from index 0, that the indexer holds for the replica.
\<close>

definition longestPrefixMatch :: "(BlockHash \<Rightarrow> podSet) \<Rightarrow> BlockHash list \<Rightarrow> ServerID \<Rightarrow> int" where
  "longestPrefixMatch get hashes r = int (length (takeWhile (\<lambda>h. r \<in> get h) hashes))"

subsection \<open>The plugin state store\<close>

text \<open>State data is an interface: the state of this plugin, or that of another one.\<close>

datatype StateData = PrefixState SchedulingContextState | OtherState string

datatype stateError = NotFound | WrongType

type_synonym PluginState = "string \<times> string \<rightharpoonup> StateData"

text \<open>Modelled from the spec: \<open>plugins.PluginState.Write\<close> is not in the source files.
  Section 4.5 has the store as a map from (request id, plugin type) to state data.\<close>

definition Write :: "PluginState \<Rightarrow> string \<Rightarrow> string \<Rightarrow> StateData \<Rightarrow> PluginState" where
  "Write s requestID key val = s((requestID, key) \<mapsto> val)"

text \<open>Modelled from the spec: \<open>plugins.PluginState.Delete\<close> is not in the source files.  It
  removes what the store holds for the request id ("read and delete the ScoringState",
  "the store contains no entry for that request id").\<close>

definition Delete :: "PluginState \<Rightarrow> string \<Rightarrow> PluginState" where
  "Delete s requestID = (\<lambda>(r, key). if r = requestID then None else s (r, key))"

text \<open>Modelled from the spec: \<open>plugins.ReadPluginStateKey\<close> is not in the source files.  It is
  the "typed read that returns a not found or wrong type error"; the type read here is
  \<open>*SchedulingContextState\<close>.\<close>

definition ReadPluginStateKey :: "PluginState \<Rightarrow> string \<Rightarrow> string \<Rightarrow> stateError + SchedulingContextState" where
  "ReadPluginStateKey s requestID key =
     (case s (requestID, key) of
        None \<Rightarrow> Inl NotFound
      | Some (PrefixState st) \<Rightarrow> Inr st
      | Some (OtherState _) \<Rightarrow> Inl WrongType)"

subsection \<open>The plugin: Score and PreRequest\<close>

definition PrefixCachePluginType :: string where
  "PrefixCachePluginType = ''prefix-cache-scorer''"

record TypedName =
  Type :: string
  PluginName :: string

record 'ix Plugin =
  typedName :: TypedName
  config :: Config
  pluginState :: PluginState
  indexer :: 'ix

text \<open>\<open>backend.Pod\<close>, and \<open>types.Pod\<close> as implemented by \<open>types.PodMetrics\<close>; the metrics are
  of a type \<open>'m\<close> that the modelled code only copies.\<close>

record Pod =
  NamespacedName :: NamespacedName
  Address :: string

record 'm PodMetrics =
  GetPod :: Pod
  GetMetrics :: 'm

record 'm ProfileRunResult =
  TargetPods :: "'m PodMetrics list"

record 'm SchedulingResult =
  ProfileResults :: "string \<rightharpoonup> 'm ProfileRunResult"
  PrimaryProfileName :: string

text \<open>What the plugin does to the world outside its own fields.\<close>

datatype effect =
    IndexerAdd "BlockHash list" ServerID
  | RecordPrefixCacheMatch go_int go_int
  | LogError stateError string

text \<open>
  \<open>Score\<close>.  A \<open>float64\<close> score is modelled by the real number it rounds: the quotient of
  the two integers.  The returned \<open>map[types.Pod]float64\<close> is the list of the candidates
  with their scores, in the order of the candidates.
\<close>

definition podScoreFunc :: "SchedulingContextState \<Rightarrow> 'm PodMetrics \<Rightarrow> real" where
  "podScoreFunc state pod =
     (if int (length (PrefixHashes state)) = 0 then 0
      else real_of_int (lookup0 (PrefixCacheServers state) (NamespacedName (GetPod pod)))
             / real_of_int (int (length (PrefixHashes state))))"

definition Score ::
  "(byte list \<Rightarrow> 64 word) \<Rightarrow> (Message list \<Rightarrow> error + byte list) \<Rightarrow> 'ix Indexer \<Rightarrow> 'ix Plugin
     \<Rightarrow> LLMRequest option \<Rightarrow> 'm PodMetrics list
     \<Rightarrow> (('m PodMetrics \<times> real) list \<times> 'ix Plugin) outcome option" where
  "Score xxhash jsonMarshal ix p request pods =
     (case hashPrompt xxhash jsonMarshal request
             (HashBlockSize (config p)) (MaxPrefixBlocksToMatch (config p)) of
        None \<Rightarrow> None
      | Some (Panic e) \<Rightarrow> Some (Panic e)
      | Some (Return hashes) \<Rightarrow>
          (case request of
             None \<Rightarrow> Some (Panic NilDereference)
           | Some req \<Rightarrow>
               Some (Return
                 (map (\<lambda>pod. (pod, podScoreFunc
                         \<lparr>PrefixHashes = hashes,
                          PrefixCacheServers = matchLongestPrefix (Get ix (indexer p)) hashes\<rparr> pod)) pods,
                  p\<lparr>pluginState :=
                      Write (pluginState p) (RequestId req) (Type (typedName p))
                        (PrefixState
                          \<lparr>PrefixHashes = hashes,
                           PrefixCacheServers = matchLongestPrefix (Get ix (indexer p)) hashes\<rparr>)\<rparr>))))"

text \<open>
  \<open>PreRequest\<close>.  The director calls it with the request it assembled and with a
  scheduling result that it has checked not to be nil.  Reading the target pod comes
  first and panics when the primary profile has no result or no target pod.
\<close>

definition PreRequest ::
  "'ix Indexer \<Rightarrow> 'ix Plugin \<Rightarrow> LLMRequest \<Rightarrow> 'm SchedulingResult \<Rightarrow> go_int
     \<Rightarrow> ('ix Plugin \<times> effect list) outcome" where
  "PreRequest ix p request schedulingResult targetPort =
     (case ProfileResults schedulingResult (PrimaryProfileName schedulingResult) of
        None \<Rightarrow> Panic NilDereference
      | Some primaryProfileResult \<Rightarrow>
          (case TargetPods primaryProfileResult of
             [] \<Rightarrow> Panic IndexOutOfRange
           | pod # _ \<Rightarrow>
               (let read = ReadPluginStateKey (pluginState p) (RequestId request) PrefixCachePluginType;
                    p1 = p\<lparr>pluginState := Delete (pluginState p) (RequestId request)\<rparr>
                in case read of
                     Inl err \<Rightarrow> Return (p1, [LogError err (RequestId request)])
                   | Inr state \<Rightarrow>
                       Return
                         (p1\<lparr>indexer :=
                               Add ix (indexer p1) (PrefixHashes state) (NamespacedName (GetPod pod))\<rparr>,
                          [IndexerAdd (PrefixHashes state) (NamespacedName (GetPod pod)),
                           RecordPrefixCacheMatch
                             (word_of_int
                                (lookup0 (PrefixCacheServers state) (NamespacedName (GetPod pod)))
                              * HashBlockSize (config p1))
                             (word_of_int (int (length (PrefixHashes state)))
                              * HashBlockSize (config p1))]))))"

section \<open>Extracting the request data (package request, body.go)\<close>

text \<open>
  \<open>encoding/json\<close> at the three types \<open>ExtractRequestData\<close> uses it at.  \<open>'j\<close> is the
  serialised form (\<open>[]byte\<close>); \<open>None\<close> is a returned error.  The struct types
  \<open>CompletionsRequest\<close> and \<open>ChatCompletionsRequest\<close> are declared outside the sources, so
  what decodes into them is left open.
\<close>

record 'j jsonCodec =
  Marshal :: "(string \<times> any) list \<Rightarrow> 'j option"
  UnmarshalCompletions :: "'j \<Rightarrow> CompletionsRequest option"
  UnmarshalChatCompletions :: "'j \<Rightarrow> ChatCompletionsRequest option"

definition validateChatCompletionsMessages :: "Message list \<Rightarrow> error option" where
  "validateChatCompletionsMessages messages =
     (if length messages = 0
      then Some (Error BadRequest ''chat-completions request must have at least one message'')
      else None)"

text \<open>
  A \<open>map[string]any\<close> is an association list read with \<open>map_of\<close>; the nil map reads as
  the empty one.  The second argument is the method \<open>Error()\<close> of \<open>errutil.Error\<close>, which
  is declared outside the sources.
\<close>

definition ExtractRequestData ::
  "'j jsonCodec \<Rightarrow> (error \<Rightarrow> string) \<Rightarrow> (string \<times> any) list \<Rightarrow> error + LLMRequestData" where
  "ExtractRequestData json errorString body =
     (case Marshal json body of
        None \<Rightarrow> Inl (Error BadRequest ''invalid request body'')
      | Some jsonBytes \<Rightarrow>
          if (case UnmarshalCompletions json jsonBytes of
                None \<Rightarrow> False
              | Some completions \<Rightarrow> Prompt completions \<noteq> '''')
          then Inr \<lparr>Completions = UnmarshalCompletions json jsonBytes, ChatCompletions = None\<rparr>
          else
            (case UnmarshalChatCompletions json jsonBytes of
               None \<Rightarrow> Inl (Error BadRequest ''invalid request format'')
             | Some chatCompletions \<Rightarrow>
                 (case validateChatCompletionsMessages (Messages chatCompletions) of
                    Some err \<Rightarrow>
                      Inl (Error BadRequest (''invalid chat-completions request: '' @ errorString err))
                  | None \<Rightarrow> Inr \<lparr>Completions = None, ChatCompletions = Some chatCompletions\<rparr>)))"

section \<open>The director (package requestcontrol)\<close>

subsection \<open>Collaborators\<close>

record InferenceObjective =
  Priority :: "go_int option"

record InferencePool =
  TargetPorts :: "32 word list"

text \<open>
  The datastore, the scheduler and the saturation detector are interfaces.  \<open>PodList\<close> is
  given the predicate; \<open>Schedule\<close> returns an error or a result that may be nil;
  \<open>saturationDetector\<close> is the answer \<open>IsSaturated\<close> gives when it is asked.  A plugin is
  known to the director by its typed name; what a plugin does when it is run belongs to
  the plugin.
\<close>

record 'm Datastore =
  ObjectiveGet :: "string \<Rightarrow> InferenceObjective option"
  PodList :: "('m PodMetrics \<Rightarrow> bool) \<Rightarrow> 'm PodMetrics list"
  PoolGet :: "error + InferencePool"

record 'm Director =
  datastore :: "'m Datastore"
  scheduler :: "LLMRequest \<Rightarrow> 'm PodMetrics list \<Rightarrow> error + 'm SchedulingResult option"
  saturationDetector :: bool
  preRequestPlugins :: "TypedName list"
  defaultPriority :: go_int

text \<open>The fields of \<open>handlers.RequestContext\<close> that the director reads or writes; those of
  its \<open>Request\<close> are \<open>ReqHeaders\<close>, \<open>Body\<close> and \<open>Metadata\<close>.\<close>

record RequestContext =
  IncomingModelName :: string
  TargetModelName :: string
  ObjectiveKey :: string
  FairnessID :: string
  ReqHeaders :: "(string \<times> string) list"
  Body :: "(string \<times> any) list"
  Metadata :: "(string \<times> any) list"
  SchedulingRequest :: "LLMRequest option"
  TargetPod :: "Pod option"
  TargetEndpoint :: string

text \<open>What is declared outside the sources: the JSON codec, \<open>Error()\<close> of \<open>errutil.Error\<close>,
  and the constants of package \<open>metadata\<close> and \<open>requtil\<close>.\<close>

record 'j Env =
  jsonPkg :: "'j jsonCodec"
  ErrorMethod :: "error \<Rightarrow> string"
  SubsetFilterNamespace :: string
  SubsetFilterKey :: string
  RequestIdHeaderKey :: string

text \<open>The calls the director makes to its collaborators, in order.\<close>

datatype call =
    CallObjectiveGet string
  | CallIsSaturated
  | CallPodList
  | CallSchedule
  | CallPoolGet
  | CallPreRequest TypedName

subsection \<open>admitRequest\<close>

definition saturatedError :: error where
  "saturatedError = Error InferencePoolResourceExhausted ''system saturated, sheddable request dropped''"

definition admitRequest :: "'m Director \<Rightarrow> go_int \<Rightarrow> string \<Rightarrow> error option \<times> call list" where
  "admitRequest d requestPriority fairnessID =
     (if 0 \<le> sint requestPriority then (None, [])
      else if saturationDetector d then (Some saturatedError, [CallIsSaturated])
      else (None, [CallIsSaturated]))"

subsection \<open>getCandidatePodsForScheduling\<close>

definition isString :: "any \<Rightarrow> bool" where
  "isString v = (case v of AString s \<Rightarrow> True | _ \<Rightarrow> False)"

definition assertMap :: "any option \<Rightarrow> (string \<times> any) list option" where
  \<comment> \<open>\<open>v.(map[string]any)\<close> in its two-value form, on the result of a map read\<close>
  "assertMap v = (case v of Some (AMap m) \<Rightarrow> Some m | _ \<Rightarrow> None)"

definition assertList :: "any option \<Rightarrow> any list option" where
  \<comment> \<open>\<open>v.([]any)\<close> in its two-value form\<close>
  "assertList v = (case v of Some (AList l) \<Rightarrow> Some l | _ \<Rightarrow> None)"

definition splitFirst :: "string \<Rightarrow> string" where
  \<comment> \<open>\<open>strings.Split(s, ":")[0]\<close>\<close>
  "splitFirst s = takeWhile (\<lambda>c. c \<noteq> CHR '':'') s"

text \<open>The loop that fills the \<open>endpoints\<close> map: \<open>endpoint.(string)\<close> is the one-value form
  of the type assertion, which panics on a value that is not a string.\<close>

fun endpointAddresses :: "any list \<Rightarrow> string list \<Rightarrow> string list outcome" where
  "endpointAddresses [] endpoints = Return endpoints"
| "endpointAddresses (endpoint # rest) endpoints =
     (case endpoint of
        AString s \<Rightarrow> endpointAddresses rest (endpoints @ [splitFirst s])
      | _ \<Rightarrow> Panic InterfaceConversion)"

definition AllPodsPredicate :: "'m PodMetrics \<Rightarrow> bool" where
  "AllPodsPredicate pm = True"

definition toSchedulerPodMetrics :: "'m PodMetrics list \<Rightarrow> 'm PodMetrics list" where
  \<comment> \<open>a deep copy of each pod and of its metrics\<close>
  "toSchedulerPodMetrics pods = map (\<lambda>pod. \<lparr>GetPod = GetPod pod, GetMetrics = GetMetrics pod\<rparr>) pods"

definition getCandidatePodsForScheduling ::
  "'j Env \<Rightarrow> 'm Director \<Rightarrow> (string \<times> any) list \<Rightarrow> ('m PodMetrics list \<times> call list) outcome" where
  "getCandidatePodsForScheduling env d requestMetadata =
     (case assertMap (map_of requestMetadata (SubsetFilterNamespace env)) of
        None \<Rightarrow>
          Return (toSchedulerPodMetrics (PodList (datastore d) AllPodsPredicate), [CallPodList])
      | Some subsetMap \<Rightarrow>
          (case assertList (map_of subsetMap (SubsetFilterKey env)) of
             None \<Rightarrow>
               Return (toSchedulerPodMetrics (PodList (datastore d) AllPodsPredicate), [CallPodList])
           | Some endpointSubsetList \<Rightarrow>
               if length endpointSubsetList = 0 then Return ([], [])
               else
                 (case endpointAddresses endpointSubsetList [] of
                    Panic e \<Rightarrow> Panic e
                  | Return endpoints \<Rightarrow>
                      Return (toSchedulerPodMetrics
                                (PodList (datastore d) (\<lambda>pm. Address (GetPod pm) \<in> set endpoints)),
                              [CallPodList]))))"

subsection \<open>prepareRequest\<close>

definition JoinHostPort :: "string \<Rightarrow> string \<Rightarrow> string" where
  \<comment> \<open>\<open>net.JoinHostPort\<close>: a host with a colon or a percent sign is put in brackets\<close>
  "JoinHostPort host port =
     (if CHR '':'' \<in> set host \<or> CHR ''%'' \<in> set host then ''['' @ host @ '']:'' @ port
      else host @ '':'' @ port)"

fun decimal :: "nat \<Rightarrow> string" where
  "decimal n =
     (if n < 10 then [''0123456789'' ! n] else decimal (n div 10) @ [''0123456789'' ! (n mod 10)])"

definition Itoa :: "int \<Rightarrow> string" where
  \<comment> \<open>\<open>strconv.Itoa\<close>\<close>
  "Itoa i = (if i < 0 then CHR 0x2D # decimal (nat (- i)) else decimal (nat i))"

fun joinComma :: "string list \<Rightarrow> string" where
  "joinComma [] = ''''"
| "joinComma [s] = s"
| "joinComma (s # t # rest) = s @ '','' @ joinComma (t # rest)"

definition prepareRequest ::
  "'j Env \<Rightarrow> 'm Director \<Rightarrow> RequestContext \<Rightarrow> 'm SchedulingResult option
     \<Rightarrow> (RequestContext \<times> error option \<times> call list) outcome" where
  "prepareRequest env d reqCtx result =
     (case result of
        None \<Rightarrow> Return (reqCtx, Some (Error Internal ''results must be greater than zero''), [])
      | Some res \<Rightarrow>
          if ProfileResults res = Map.empty
          then Return (reqCtx, Some (Error Internal ''results must be greater than zero''), [])
          else
            (case PoolGet (datastore d) of
               Inl err \<Rightarrow> Return (reqCtx, Some err, [CallPoolGet])
             | Inr pool \<Rightarrow>
                 (case TargetPorts pool of
                    [port] \<Rightarrow>
                      (case ProfileResults res (PrimaryProfileName res) of
                         None \<Rightarrow> Panic NilDereference
                       | Some primary \<Rightarrow>
                           (case TargetPods primary of
                              [] \<Rightarrow> Panic IndexOutOfRange
                            | pod # pods \<Rightarrow>
                                Return
                                  (reqCtx\<lparr>TargetPod := Some (GetPod pod),
                                          TargetEndpoint :=
                                            joinComma
                                              (map (\<lambda>p. JoinHostPort (Address (GetPod p))
                                                           (Itoa (sint port)))
                                                 (pod # pods))\<rparr>,
                                   None,
                                   CallPoolGet # map CallPreRequest (preRequestPlugins d))))
                  | _ \<Rightarrow>
                      Return (reqCtx, Some (Error BadRequest ''targetPorts should have length 1''),
                              [CallPoolGet]))))"

subsection \<open>HandleRequest\<close>

definition modelNotFound :: error where
  "modelNotFound = Error BadRequest ''model not found in request body''"

definition assertString :: "any option \<Rightarrow> string \<times> bool" where
  \<comment> \<open>\<open>v.(string)\<close> in its two-value form: the zero value and \<open>false\<close> on any other value\<close>
  "assertString v = (case v of Some (AString s) \<Rightarrow> (s, True) | _ \<Rightarrow> ('''', False))"

definition resolvePriority :: "'m Director \<Rightarrow> string \<Rightarrow> go_int" where
  \<comment> \<open>\<open>*infObjective.Spec.Priority\<close> after the defaults have been filled in\<close>
  "resolvePriority d objectiveKey =
     (case ObjectiveGet (datastore d) objectiveKey of
        None \<Rightarrow> defaultPriority d
      | Some infObjective \<Rightarrow>
          (case Priority infObjective of None \<Rightarrow> defaultPriority d | Some priority \<Rightarrow> priority))"

definition headerValue :: "(string \<times> string) list \<Rightarrow> string \<Rightarrow> string" where
  \<comment> \<open>reading a \<open>map[string]string\<close>: a missing key reads as the empty string\<close>
  "headerValue headers key = (case map_of headers key of None \<Rightarrow> '''' | Some v \<Rightarrow> v)"

definition scheduleAndPrepare ::
  "'j Env \<Rightarrow> 'm Director \<Rightarrow> RequestContext \<Rightarrow> LLMRequest
     \<Rightarrow> (RequestContext \<times> error option \<times> call list) outcome" where
  \<comment> \<open>steps 3 and 4 of \<open>HandleRequest\<close>\<close>
  "scheduleAndPrepare env d reqCtx request =
     (case getCandidatePodsForScheduling env d (Metadata reqCtx) of
        Panic e \<Rightarrow> Panic e
      | Return (candidatePods, calls) \<Rightarrow>
          if length candidatePods = 0
          then Return (reqCtx,
                 Some (Error ServiceUnavailable ''failed to find candidate pods for serving the request''),
                 calls)
          else
            (case scheduler d request candidatePods of
               Inl err \<Rightarrow>
                 Return (reqCtx,
                   Some (Error InferencePoolResourceExhausted
                           (''failed to find target pod: '' @ ErrorMethod env err)),
                   calls @ [CallSchedule])
             | Inr result \<Rightarrow>
                 (case prepareRequest env d reqCtx result of
                    Panic e \<Rightarrow> Panic e
                  | Return (reqCtx', err, calls') \<Rightarrow>
                      Return (reqCtx', err, calls @ [CallSchedule] @ calls'))))"

definition resolveTargetModel :: "RequestContext \<Rightarrow> string \<Rightarrow> RequestContext" where
  \<comment> \<open>the target model defaults to the incoming model and is written back to the body\<close>
  "resolveTargetModel reqCtx incoming =
     (let target = (if TargetModelName reqCtx = [] then incoming else TargetModelName reqCtx)
      in reqCtx\<lparr>IncomingModelName := incoming, TargetModelName := target,
                Body := AList.update ''model'' (AString target) (Body reqCtx)\<rparr>)"

definition assembleRequest :: "'j Env \<Rightarrow> RequestContext \<Rightarrow> LLMRequestData \<Rightarrow> LLMRequest" where
  \<comment> \<open>the \<open>LLMRequest\<close> stored in \<open>reqCtx.SchedulingRequest\<close>\<close>
  "assembleRequest env reqCtx requestData =
     \<lparr>RequestId = headerValue (ReqHeaders reqCtx) (RequestIdHeaderKey env),
      TargetModel = TargetModelName reqCtx,
      Data = Some requestData,
      Headers = ReqHeaders reqCtx\<rparr>"

definition HandleRequest ::
  "'j Env \<Rightarrow> 'm Director \<Rightarrow> RequestContext
     \<Rightarrow> (RequestContext \<times> error option \<times> call list) outcome" where
  "HandleRequest env d reqCtx =
     (case assertString (map_of (Body reqCtx) ''model'') of
        (incoming, False) \<Rightarrow>
          Return (reqCtx\<lparr>IncomingModelName := incoming\<rparr>, Some modelNotFound, [])
      | (incoming, True) \<Rightarrow>
          (let reqCtx1 = resolveTargetModel reqCtx incoming
           in case ExtractRequestData (jsonPkg env) (ErrorMethod env) (Body reqCtx1) of
                Inl err \<Rightarrow>
                  Return (reqCtx1,
                    Some (Error BadRequest (''failed to extract request data: '' @ ErrorMethod env err)),
                    [])
              | Inr requestData \<Rightarrow>
                  (let request = assembleRequest env reqCtx1 requestData;
                       reqCtx2 = reqCtx1\<lparr>SchedulingRequest := Some request\<rparr>
                   in case admitRequest d (resolvePriority d (ObjectiveKey reqCtx2)) (FairnessID reqCtx2) of
                        (Some err, calls) \<Rightarrow>
                          Return (reqCtx2, Some err, CallObjectiveGet (ObjectiveKey reqCtx2) # calls)
                      | (None, calls) \<Rightarrow>
                          (case scheduleAndPrepare env d reqCtx2 request of
                             Panic e \<Rightarrow> Panic e
                           | Return (reqCtx', err, calls') \<Rightarrow>
                               Return (reqCtx', err,
                                 CallObjectiveGet (ObjectiveKey reqCtx2) # calls @ calls')))))"

section \<open>Sample values\<close>

text \<open>
  Concrete values on which the theorems below are instantiated.  \<open>sampleHash\<close> stands
  in for xxhash64 and \<open>sampleMarshal\<close> for \<open>json.Marshal\<close>; the theorems themselves
  hold for every hash function and every marshaller.
\<close>

definition sampleHash :: "byte list \<Rightarrow> 64 word" where
  "sampleHash bs = foldl (\<lambda>h b. 31 * h + ucast b) 17 bs"

definition sampleMarshal :: "Message list \<Rightarrow> error + byte list" where
  "sampleMarshal ms = Inr (concat (map (\<lambda>m. bytesOf (Role m @ '':'' @ Content m)) ms))"

definition sampleData :: "string \<Rightarrow> LLMRequestData" where
  "sampleData prompt = \<lparr>Completions = Some \<lparr>Prompt = prompt\<rparr>, ChatCompletions = None\<rparr>"

definition sampleRequest :: "string \<Rightarrow> LLMRequest" where
  "sampleRequest prompt =
     \<lparr>RequestId = ''req-1'', TargetModel = ''m'', Data = Some (sampleData prompt), Headers = []\<rparr>"

definition serverA :: ServerID where
  "serverA = \<lparr>Namespace = ''default'', Name = ''pod-a''\<rparr>"

definition serverB :: ServerID where
  "serverB = \<lparr>Namespace = ''default'', Name = ''pod-b''\<rparr>"

definition sampleGet :: "BlockHash \<Rightarrow> podSet" where
  \<comment> \<open>an indexer that holds block 1 for pod-a only, and block 2 for pod-a and pod-b\<close>
  "sampleGet h = (if h = 1 then {serverA} else if h = 2 then {serverA, serverB} else {})"

definition sampleIndexer :: "(BlockHash \<Rightarrow> podSet) Indexer" where
  \<comment> \<open>an indexer whose state is the lookup function itself\<close>
  "sampleIndexer =
     \<lparr>Get = (\<lambda>ix. ix),
      Add = (\<lambda>ix hashes server h. if h \<in> set hashes then insert server (ix h) else ix h)\<rparr>"

definition samplePlugin :: "(BlockHash \<Rightarrow> podSet) Plugin" where
  "samplePlugin =
     \<lparr>typedName = \<lparr>Type = PrefixCachePluginType, PluginName = PrefixCachePluginType\<rparr>,
      config = \<lparr>HashBlockSize = 2, MaxPrefixBlocksToMatch = 256, LRUCapacityPerServer = 31250\<rparr>,
      pluginState = Map.empty,
      indexer = (\<lambda>h. {})\<rparr>"

definition samplePod :: "unit PodMetrics" where
  "samplePod = \<lparr>GetPod = \<lparr>NamespacedName = serverA, Address = ''10.0.0.1''\<rparr>, GetMetrics = ()\<rparr>"

definition sampleResult :: "unit SchedulingResult" where
  "sampleResult =
     \<lparr>ProfileResults = [''default'' \<mapsto> \<lparr>TargetPods = [samplePod]\<rparr>],
      PrimaryProfileName = ''default''\<rparr>"

text \<open>A codec whose serialised form is the map itself and which decodes in the manner of
  \<open>encoding/json\<close>: a field of the wrong type is an error, a field that is absent keeps
  its zero value.\<close>

definition decodeMessage :: "any \<Rightarrow> Message option" where
  "decodeMessage v =
     (case v of
        AMap kv \<Rightarrow>
          (case (map_of kv ''role'', map_of kv ''content'') of
             (Some (AString r), Some (AString c)) \<Rightarrow> Some \<lparr>Role = r, Content = c\<rparr>
           | _ \<Rightarrow> None)
      | _ \<Rightarrow> None)"

fun decodeMessages :: "any list \<Rightarrow> Message list option" where
  "decodeMessages [] = Some []"
| "decodeMessages (v # vs) =
     (case decodeMessage v of
        None \<Rightarrow> None
      | Some m \<Rightarrow> (case decodeMessages vs of None \<Rightarrow> None | Some ms \<Rightarrow> Some (m # ms)))"

definition chatOf :: "Message list \<Rightarrow> ChatCompletionsRequest" where
  "chatOf ms =
     \<lparr>Messages = ms, Tools = [], Documents = [], ChatTemplate = [],
      ReturnAssistantTokensMask = False, ContinueFinalMessage = False,
      AddGenerationPrompt = False, ChatTemplateKWArgs = []\<rparr>"

definition sampleCodec :: "(string \<times> any) list jsonCodec" where
  "sampleCodec =
     \<lparr>Marshal = Some,
      UnmarshalCompletions =
        (\<lambda>body. case map_of body ''prompt'' of
                   None \<Rightarrow> Some \<lparr>Prompt = []\<rparr>
                 | Some (AString s) \<Rightarrow> Some \<lparr>Prompt = s\<rparr>
                 | Some _ \<Rightarrow> None),
      UnmarshalChatCompletions =
        (\<lambda>body. case map_of body ''messages'' of
                   None \<Rightarrow> Some (chatOf [])
                 | Some (AList vs) \<Rightarrow>
                     (case decodeMessages vs of None \<Rightarrow> None | Some ms \<Rightarrow> Some (chatOf ms))
                 | Some _ \<Rightarrow> None)\<rparr>"

definition sampleErrorString :: "error \<Rightarrow> string" where
  "sampleErrorString e = (case e of Error c m \<Rightarrow> m | ForeignError m \<Rightarrow> m)"

definition sampleEnv :: "(string \<times> any) list Env" where
  "sampleEnv =
     \<lparr>jsonPkg = sampleCodec,
      ErrorMethod = sampleErrorString,
      SubsetFilterNamespace = ''envoy.lb.subset_hint'',
      SubsetFilterKey = ''x-gateway-destination-endpoint-subset'',
      RequestIdHeaderKey = ''x-request-id''\<rparr>"

definition sampleDirector :: "bool \<Rightarrow> unit Director" where
  \<comment> \<open>one pod, one objective of priority -1 under the key \<open>sheddable\<close>; the argument is
     what the saturation detector answers\<close>
  "sampleDirector saturated =
     \<lparr>datastore =
        \<lparr>ObjectiveGet = (\<lambda>key. if key = ''sheddable'' then Some \<lparr>Priority = Some (- 1)\<rparr> else None),
         PodList = (\<lambda>predicate. filter predicate [samplePod]),
         PoolGet = Inr \<lparr>TargetPorts = [8000]\<rparr>\<rparr>,
      scheduler = (\<lambda>request pods. Inr (Some sampleResult)),
      saturationDetector = saturated,
      preRequestPlugins = [\<lparr>Type = PrefixCachePluginType, PluginName = PrefixCachePluginType\<rparr>],
      defaultPriority = 0\<rparr>"

definition sampleContext :: "string \<Rightarrow> (string \<times> any) list \<Rightarrow> (string \<times> any) list \<Rightarrow> RequestContext" where
  \<comment> \<open>a fresh request context with the given objective key, body and metadata\<close>
  "sampleContext key body metadata =
     \<lparr>IncomingModelName = [], TargetModelName = [], ObjectiveKey = key, FairnessID = [],
      ReqHeaders = [(''x-request-id'', ''req-1'')], Body = body, Metadata = metadata,
      SchedulingRequest = None, TargetPod = None, TargetEndpoint = []\<rparr>"

section \<open>Properties of the prefix cache scorer\<close>

subsection \<open>The block loop, characterised\<close>

lemma nat_div_zero_less: "0 < (b::int) \<Longrightarrow> 0 \<le> d \<Longrightarrow> nat (d div b) = 0 \<Longrightarrow> d < b"
  using Euclidean_Rings.div_eq_0_iff nat_div_distrib' by fastforce

lemma nat_div_Suc_step:
  fixes b d :: int
  assumes "0 < b" "0 \<le> d" "nat (d div b) = Suc n"
  shows "b \<le> d \<and> nat ((d - b) div b) = n"
proof -
  have pos: "0 < d div b" using assms(3) by linarith
  then have le: "b \<le> d" using assms(1) by (simp add: pos_imp_zdiv_pos_iff)
  have "d div b = ((d - b) + b) div b" by simp
  also have "\<dots> = (d - b) div b + 1" using assms(1) by (subst div_add_self2) simp_all
  finally have "(d - b) div b = d div b - 1" by simp
  then show ?thesis using le assms(3) by simp
qed

lemma sint_add_no_overflow:
  fixes i bs :: go_int
  assumes "0 \<le> sint i" "0 < sint bs" "sint i + sint bs < 2 ^ 63"
  shows "sint (i + bs) = sint i + sint bs"
proof -
  have "sint (i + bs) = signed_take_bit 63 (sint i + sint bs)"
    by (simp add: sint_word_ariths)
  also have "\<dots> = sint i + sint bs"
    using assms by (intro signed_take_bit_int_eq_self) auto
  finally show ?thesis .
qed

lemma sint_add_overflow:
  fixes i bs :: go_int
  assumes "0 \<le> sint i" "0 < sint bs" "2 ^ 63 \<le> sint i + sint bs"
  shows "sint (i + bs) < 0"
proof -
  have lt: "sint i < 2 ^ 63" "sint bs < 2 ^ 63"
    using sint_lt [of i] sint_lt [of bs] by simp_all
  have "sint (i + bs) = signed_take_bit 63 (sint i + sint bs)"
    by (simp add: sint_word_ariths)
  also have "\<dots> \<le> sint i + sint bs - 2 ^ Suc 63"
    using assms by (intro signed_take_bit_int_less_eq) auto
  finally show ?thesis using lt by simp
qed

lemma goSlice_block:
  "0 \<le> lo \<Longrightarrow> 0 \<le> b \<Longrightarrow> goSlice s lo (lo + b) = take (nat b) (drop (nat lo) s)"
  by (simp add: goSlice_def drop_take nat_add_distrib)


lemma hashLoop_exit:
  "\<not> sint (i + bs) \<le> int (length inp) \<Longrightarrow> hashLoop xx inp bs i prev res = Some (Return res)"
  by (subst hashLoop.simps) (simp only: if_False)

lemma hashLoop_step:
  "sint (i + bs) \<le> int (length inp) \<Longrightarrow> 0 \<le> sint i \<Longrightarrow> sint i \<le> sint (i + bs) \<Longrightarrow>
   hashLoop xx inp bs i prev res =
     hashLoop xx inp bs (i + bs)
       (xx (goSlice inp (sint i) (sint (i + bs)) @ toBytes prev))
       (res @ [xx (goSlice inp (sint i) (sint (i + bs)) @ toBytes prev)])"
  by (subst hashLoop.simps) (simp only: if_True simp_thms)

lemma hashLoop_panic:
  "sint (i + bs) \<le> int (length inp) \<Longrightarrow> \<not> (0 \<le> sint i \<and> sint i \<le> sint (i + bs)) \<Longrightarrow>
   hashLoop xx inp bs i prev res = Some (Panic SliceBoundsOutOfRange)"
  by (subst hashLoop.simps) (simp only: if_True if_False simp_thms)

lemma hashLoop_eq:
  fixes bs i :: go_int
  assumes b: "0 < sint bs"
  shows "0 \<le> sint i \<Longrightarrow> sint i \<le> int (length inp) \<Longrightarrow>
         nat ((int (length inp) - sint i) div sint bs) = n \<Longrightarrow>
         hashLoop xx inp bs i prev res =
           Some (if sint i + (int n + 1) * sint bs < 2 ^ 63
                 then Return (res @ chainFrom xx inp (nat (sint bs)) (nat (sint i)) prev n)
                 else Panic SliceBoundsOutOfRange)"
proof (induction n arbitrary: i prev res)
  case 0
  have small: "int (length inp) - sint i < sint bs"
    using b 0 nat_div_zero_less [of "sint bs" "int (length inp) - sint i"] by linarith
  show ?case
  proof (cases "sint i + sint bs < 2 ^ 63")
    case True
    have "sint (i + bs) = sint i + sint bs"
      using 0(1) b True by (rule sint_add_no_overflow)
    then have "\<not> sint (i + bs) \<le> int (length inp)"
      using small by linarith
    then have "hashLoop xx inp bs i prev res = Some (Return res)"
      by (rule hashLoop_exit)
    moreover have "sint i + (int 0 + 1) * sint bs < 2 ^ 63"
      using True by simp
    ultimately show ?thesis
      by (simp only: if_True chainFrom.simps append_Nil2)
  next
    case False
    then have ge: "2 ^ 63 \<le> sint i + sint bs" by linarith
    have neg: "sint (i + bs) < 0"
      using 0(1) b ge by (rule sint_add_overflow)
    have "hashLoop xx inp bs i prev res = Some (Panic SliceBoundsOutOfRange)"
      using neg 0(1) by (intro hashLoop_panic) linarith+
    moreover have "\<not> sint i + (int 0 + 1) * sint bs < 2 ^ 63"
      using False by simp
    ultimately show ?thesis
      by (simp only: if_False)
  qed
next
  case (Suc n)
  have step: "sint bs \<le> int (length inp) - sint i"
       "nat ((int (length inp) - (sint i + sint bs)) div sint bs) = n"
    using b Suc.prems nat_div_Suc_step [of "sint bs" "int (length inp) - sint i" n]
    by (simp_all add: diff_diff_eq)
  have mono: "sint bs \<le> (int (Suc n) + 1) * sint bs"
    using b by (simp add: algebra_simps)
  show ?case
  proof (cases "sint i + sint bs < 2 ^ 63")
    case True
    have eq: "sint (i + bs) = sint i + sint bs"
      using Suc.prems(1) b True by (rule sint_add_no_overflow)
    let ?h = "xx (take (nat (sint bs)) (drop (nat (sint i)) inp) @ toBytes prev)"
    have sl: "goSlice inp (sint i) (sint (i + bs)) = take (nat (sint bs)) (drop (nat (sint i)) inp)"
      unfolding eq using Suc.prems(1) b by (intro goSlice_block) linarith+
    have c1: "sint (i + bs) \<le> int (length inp)" and c2: "0 \<le> sint (i + bs)"
      and c3: "sint i \<le> sint (i + bs)"
      unfolding eq using step(1) b Suc.prems(1) by linarith+
    have n': "nat ((int (length inp) - sint (i + bs)) div sint bs) = n"
      unfolding eq by (rule step(2))
    have IH: "hashLoop xx inp bs (i + bs) ?h (res @ [?h]) =
           Some (if sint (i + bs) + (int n + 1) * sint bs < 2 ^ 63
                 then Return ((res @ [?h]) @ chainFrom xx inp (nat (sint bs)) (nat (sint (i + bs))) ?h n)
                 else Panic SliceBoundsOutOfRange)"
      using c2 c1 n' by (rule Suc.IH)
    have off: "nat (sint (i + bs)) = nat (sint i) + nat (sint bs)"
      unfolding eq using Suc.prems(1) b by (intro nat_add_distrib) linarith+
    have cond: "sint (i + bs) + (int n + 1) * sint bs = sint i + (int (Suc n) + 1) * sint bs"
      unfolding eq by (simp add: distrib_right)
    have "hashLoop xx inp bs i prev res = hashLoop xx inp bs (i + bs) ?h (res @ [?h])"
      using hashLoop_step [OF c1 Suc.prems(1) c3, of xx prev res] unfolding sl .
    then show ?thesis
      unfolding IH cond off by (simp only: chainFrom.simps append_assoc append_Cons append_Nil)
  next
    case False
    then have ge: "2 ^ 63 \<le> sint i + sint bs" by linarith
    have neg: "sint (i + bs) < 0"
      using Suc.prems(1) b ge by (rule sint_add_overflow)
    have "hashLoop xx inp bs i prev res = Some (Panic SliceBoundsOutOfRange)"
      using neg Suc.prems(1) by (intro hashLoop_panic) linarith+
    moreover have "\<not> sint i + (int (Suc n) + 1) * sint bs < 2 ^ 63"
      using ge mono by linarith
    ultimately show ?thesis
      by (simp only: if_False)
  qed
qed

subsection \<open>hashPrompt returns or panics\<close>

lemma toBytes_littleEndian: "toBytes h = littleEndianU64 h"
proof -
  have "(ucast (drop_bit (8 * k) h) :: byte) = of_nat (unat h div 256 ^ k mod 256)" for k
  proof -
    have "unat (ucast (drop_bit (8 * k) h) :: byte) = take_bit 8 (drop_bit (8 * k) (unat h))"
      by (simp only: unsigned_ucast_eq unat_drop_bit_eq) simp
    also have "\<dots> = unat h div 256 ^ k mod 256"
      by (simp add: take_bit_eq_mod drop_bit_eq_div power_mult)
    finally have "unat (ucast (drop_bit (8 * k) h) :: byte) = unat h div 256 ^ k mod 256" .
    then show ?thesis
      by (metis of_nat_unat ucast_id)
  qed
  then show ?thesis
    by (simp only: toBytes_def littleEndianU64_def)
qed

lemma truncDiv_pos: "0 \<le> a \<Longrightarrow> 0 < b \<Longrightarrow> truncDiv a b = a div b"
  by (simp add: truncDiv_def)

lemma hashBlocks_pos:
  fixes bs :: go_int
  assumes b: "0 < sint bs"
  shows "hashBlocks xx m inp bs =
           Some (if (int (length inp) div sint bs + 1) * sint bs < 2 ^ 63
                 then Return (chainFrom xx inp (nat (sint bs)) 0 (xx (bytesOf m))
                                (nat (int (length inp) div sint bs)))
                 else Panic SliceBoundsOutOfRange)"
proof -
  have nz: "bs \<noteq> 0" using b by auto
  have q: "0 \<le> int (length inp) div sint bs"
    using b by (simp add: pos_imp_zdiv_nonneg_iff)
  have td: "\<not> truncDiv (int (length inp)) (sint bs) < 0"
    using b q by (simp add: truncDiv_pos)
  have "hashLoop xx inp bs 0 (xx (bytesOf m)) [] =
           Some (if sint (0::go_int) + (int (nat (int (length inp) div sint bs)) + 1) * sint bs < 2 ^ 63
                 then Return ([] @ chainFrom xx inp (nat (sint bs)) (nat (sint (0::go_int))) (xx (bytesOf m))
                                (nat (int (length inp) div sint bs)))
                 else Panic SliceBoundsOutOfRange)"
    by (rule hashLoop_eq [OF b]) simp_all
  then show ?thesis
    using q by (simp add: hashBlocks_def nz td)
qed

lemma hashBlocks_neg:
  fixes bs :: go_int
  assumes b: "sint bs < 0"
  shows "hashBlocks xx m inp bs =
           Some (Panic (if truncDiv (int (length inp)) (sint bs) < 0
                        then MakeSliceCapOutOfRange else SliceBoundsOutOfRange))"
proof -
  have nz: "bs \<noteq> 0" using b by auto
  have c: "sint (0 + bs) \<le> int (length inp)" using b by simp
  have "\<not> (0 \<le> sint (0::go_int) \<and> sint (0::go_int) \<le> sint (0 + bs))"
    using b by simp
  with c have "hashLoop xx inp bs 0 (xx (bytesOf m)) [] = Some (Panic SliceBoundsOutOfRange)"
    by (rule hashLoop_panic)
  then show ?thesis
    by (simp add: hashBlocks_def nz)
qed

lemma hashBlocks_total: "\<exists>r. hashBlocks xx m inp bs = Some r"
proof -
  consider "bs = 0" | "0 < sint bs" | "sint bs < 0"
    using signed_eq_0_iff [of bs] by (metis linorder_neqE_linordered_idom)
  then show ?thesis
  proof cases
    case 1 then show ?thesis by (simp add: hashBlocks_def)
  next
    case 2 then show ?thesis by (simp only: hashBlocks_pos) blast
  next
    case 3 then show ?thesis by (simp only: hashBlocks_neg) blast
  qed
qed

lemma hashPrompt_total: "\<exists>r. hashPrompt xx jm request bs mb = Some r"
  using hashBlocks_total
  by (auto simp: hashPrompt_def split: option.splits outcome.splits sum.splits)

subsection \<open>The loop computes the chained hash\<close>

lemma length_chainFrom: "length (chainFrom xx inp b off prev n) = n"
  by (induction n arbitrary: off prev) simp_all

lemma block_of_prefix:
  "(k + 1) * b \<le> t \<Longrightarrow> take b (drop (k * b) (take t inp)) = take b (drop (k * b) inp)"
  by (simp add: drop_take min_def)

lemma chainFrom_chainedHash:
  "(k + n) * b \<le> t \<Longrightarrow>
   chainFrom xx (take t inp) b (k * b) (chainedHash xx m inp b k) n =
     map (\<lambda>j. chainedHash xx m inp b (Suc (k + j))) [0..<n]"
proof (induction n arbitrary: k)
  case 0
  show ?case by simp
next
  case (Suc n)
  have blk: "take b (drop (k * b) (take t inp)) = take b (drop (k * b) inp)"
    using Suc.prems by (intro block_of_prefix) (simp add: algebra_simps)
  have h: "xx (take b (drop (k * b) (take t inp)) @ toBytes (chainedHash xx m inp b k))
             = chainedHash xx m inp b (Suc k)"
    by (simp only: blk toBytes_littleEndian chainedHash.simps)
  have "chainFrom xx (take t inp) b (Suc k * b) (chainedHash xx m inp b (Suc k)) n =
          map (\<lambda>j. chainedHash xx m inp b (Suc (Suc k + j))) [0..<n]"
    using Suc.prems by (intro Suc.IH) simp
  then have tl: "chainFrom xx (take t inp) b (k * b + b) (chainedHash xx m inp b (Suc k)) n =
          map (\<lambda>j. chainedHash xx m inp b (Suc (k + Suc j))) [0..<n]"
    by (simp add: algebra_simps)
  have "map (\<lambda>j. chainedHash xx m inp b (Suc (k + j))) [0..<Suc n] =
          chainedHash xx m inp b (Suc k) # map (\<lambda>j. chainedHash xx m inp b (Suc (k + Suc j))) [0..<n]"
    by (simp only: map_upt_Suc) simp
  then show ?case
    by (simp only: chainFrom.simps h tl)
qed

lemma hashBlocks_Return_chained:
  fixes bs :: go_int
  assumes b: "0 < sint bs" and r: "hashBlocks xx m (take t inp) bs = Some (Return hs)"
    and t: "t \<le> length inp"
  shows "hs = map (\<lambda>j. chainedHash xx m inp (nat (sint bs)) (Suc j)) [0..<t div nat (sint bs)]"
proof -
  let ?n = "nat (int (length (take t inp)) div sint bs)"
  have len: "length (take t inp) = t" using t by simp
  have n: "?n = t div nat (sint bs)"
    using b by (simp only: len) (simp add: nat_div_distrib)
  have "hs = chainFrom xx (take t inp) (nat (sint bs)) 0 (xx (bytesOf m)) ?n"
    using r unfolding hashBlocks_pos [OF b] by (simp split: if_splits)
  also have "\<dots> = chainFrom xx (take t inp) (nat (sint bs)) (0 * nat (sint bs))
                      (chainedHash xx m inp (nat (sint bs)) 0) (t div nat (sint bs))"
    by (simp only: n chainedHash.simps mult_0)
  also have "\<dots> = map (\<lambda>j. chainedHash xx m inp (nat (sint bs)) (Suc (0 + j))) [0..<t div nat (sint bs)]"
    by (rule chainFrom_chainedHash) simp
  finally show ?thesis by simp
qed

lemma hashPrompt_Return_chained:
  fixes bs mb :: go_int
  assumes b: "0 < sint bs"
    and d: "Data req = Some d" and u: "getUserInputBytes jm d = Return (Inr inp)"
    and r: "hashPrompt xx jm (Some req) bs mb = Some (Return hs)"
  shows "hs = map (\<lambda>j. chainedHash xx (TargetModel req) inp (nat (sint bs)) (Suc j)) [0..<length hs]"
proof -
  consider (short) "int (length inp) < sint bs"
    | (cut) "\<not> int (length inp) < sint bs" "int (length inp) > sint (bs * mb)"
    | (whole) "\<not> int (length inp) < sint bs" "\<not> int (length inp) > sint (bs * mb)"
    by blast
  then show ?thesis
  proof cases
    case short
    then have "hs = []" using r d u by (simp add: hashPrompt_def)
    then show ?thesis by simp
  next
    case cut
    let ?t = "nat (sint (mb * bs))"
    have nn: "\<not> sint (mb * bs) < 0"
      using r d u cut by (auto simp: hashPrompt_def)
    have "hashBlocks xx (TargetModel req) (goSlice inp 0 (sint (mb * bs))) bs = Some (Return hs)"
      using r d u cut nn by (simp add: hashPrompt_def)
    then have hb: "hashBlocks xx (TargetModel req) (take ?t inp) bs = Some (Return hs)"
      by (simp add: goSlice_def)
    have "?t \<le> length inp" using cut(2) by (simp add: mult.commute)
    from hashBlocks_Return_chained [OF b hb this]
    have "hs = map (\<lambda>j. chainedHash xx (TargetModel req) inp (nat (sint bs)) (Suc j)) [0..<?t div nat (sint bs)]" .
    then show ?thesis by (metis length_map length_upt minus_nat.diff_0)
  next
    case whole
    have "hashBlocks xx (TargetModel req) inp bs = Some (Return hs)"
      using r d u whole by (simp add: hashPrompt_def)
    then have hb: "hashBlocks xx (TargetModel req) (take (length inp) inp) bs = Some (Return hs)"
      by simp
    from hashBlocks_Return_chained [OF b hb order_refl]
    have "hs = map (\<lambda>j. chainedHash xx (TargetModel req) inp (nat (sint bs)) (Suc j)) [0..<length inp div nat (sint bs)]" .
    then show ?thesis by (metis length_map length_upt minus_nat.diff_0)
  qed
qed

subsection \<open>The result of hashPrompt when no integer overflows\<close>

lemma hashBlocks_take_no_overflow:
  fixes bs :: go_int
  assumes b: "0 < sint bs" and t: "t \<le> length inp" and fin: "int t + sint bs < 2 ^ 63"
  shows "hashBlocks xx m (take t inp) bs =
           Some (Return (map (\<lambda>j. chainedHash xx m inp (nat (sint bs)) (Suc j)) [0..<t div nat (sint bs)]))"
proof -
  have len: "int (length (take t inp)) = int t" using t by simp
  have "int t div sint bs * sint bs \<le> int t"
    using b by (simp add: minus_mod_eq_div_mult [symmetric])
  then have "(int t div sint bs + 1) * sint bs \<le> int t + sint bs"
    by (simp add: distrib_right)
  then have c: "(int (length (take t inp)) div sint bs + 1) * sint bs < 2 ^ 63"
    unfolding len using fin by linarith
  have "\<exists>hs. hashBlocks xx m (take t inp) bs = Some (Return hs)"
    unfolding hashBlocks_pos [OF b] using c by (simp only: if_True) blast
  then obtain hs where r: "hashBlocks xx m (take t inp) bs = Some (Return hs)" ..
  from hashBlocks_Return_chained [OF b r t] r show ?thesis by simp
qed

lemma sint_mult_no_overflow:
  fixes a b :: go_int
  assumes "0 \<le> sint a * sint b" "sint a * sint b < 2 ^ 63"
  shows "sint (a * b) = sint a * sint b"
proof -
  have "sint (a * b) = signed_take_bit 63 (sint a * sint b)"
    by (simp add: sint_word_mult)
  also have "\<dots> = sint a * sint b"
    using assms by (intro signed_take_bit_int_eq_self) linarith+
  finally show ?thesis .
qed

lemma hashPrompt_no_overflow:
  fixes bs mb :: go_int
  assumes b: "0 < sint bs" and m: "0 \<le> sint mb"
    and prod: "sint bs * sint mb < 2 ^ 63"
    and fin: "min (int (length inp)) (sint bs * sint mb) + sint bs < 2 ^ 63"
    and d: "Data req = Some d" and u: "getUserInputBytes jm d = Return (Inr inp)"
  shows "hashPrompt xx jm (Some req) bs mb =
           Some (Return (map (\<lambda>j. chainedHash xx (TargetModel req) inp (nat (sint bs)) (Suc j))
                           [0..<nat (min (int (length inp)) (sint bs * sint mb) div sint bs)]))"
proof -
  have nn: "0 \<le> sint bs * sint mb" using b m by simp
  have p1: "sint (bs * mb) = sint bs * sint mb"
    using nn prod by (rule sint_mult_no_overflow)
  have p2: "sint (mb * bs) = sint bs * sint mb"
    using p1 by (simp only: mult.commute [of mb bs])
  consider (short) "int (length inp) < sint bs"
    | (cut) "\<not> int (length inp) < sint bs" "int (length inp) > sint bs * sint mb"
    | (whole) "\<not> int (length inp) < sint bs" "\<not> int (length inp) > sint bs * sint mb"
    by blast
  then show ?thesis
  proof cases
    case short
    have "min (int (length inp)) (sint bs * sint mb) < sint bs" using short by simp
    moreover have "0 \<le> min (int (length inp)) (sint bs * sint mb)" using nn by simp
    ultimately have "min (int (length inp)) (sint bs * sint mb) div sint bs = 0"
      by (rule div_pos_pos_trivial [rotated])
    then show ?thesis using short d u by (simp add: hashPrompt_def)
  next
    case cut
    let ?t = "nat (sint bs * sint mb)"
    have mn: "min (int (length inp)) (sint bs * sint mb) = sint bs * sint mb"
      using cut(2) by simp
    have t: "?t \<le> length inp" using cut(2) by simp
    have f: "int ?t + sint bs < 2 ^ 63" using fin nn unfolding mn by simp
    have q: "?t div nat (sint bs) = nat (sint bs * sint mb div sint bs)"
      using nn by (rule nat_div_distrib [symmetric])
    have "hashPrompt xx jm (Some req) bs mb =
            hashBlocks xx (TargetModel req) (take ?t inp) bs"
      using cut d u nn by (simp add: hashPrompt_def p1 p2 goSlice_def)
    then show ?thesis
      unfolding hashBlocks_take_no_overflow [OF b t f] mn q .
  next
    case whole
    have mn: "min (int (length inp)) (sint bs * sint mb) = int (length inp)"
      using whole(2) by simp
    have f: "int (length inp) + sint bs < 2 ^ 63" using fin unfolding mn .
    have q: "length inp div nat (sint bs) = nat (int (length inp) div sint bs)"
      using b by (simp add: nat_div_distrib)
    have "hashPrompt xx jm (Some req) bs mb =
            hashBlocks xx (TargetModel req) (take (length inp) inp) bs"
      using whole d u by (simp add: hashPrompt_def p1)
    then show ?thesis
      unfolding hashBlocks_take_no_overflow [OF b order_refl f] mn q .
  qed
qed

subsection \<open>The block loop alone, at block size 0\<close>

lemma hashLoop_zero_diverges_aux:
  assumes "hashLoop xx inp bs i prev res = Some y"
  shows "\<not> (bs = 0 \<and> 0 \<le> sint i \<and> sint i \<le> int (length inp))"
proof (rule hashLoop.raw_induct
    [where P = "\<lambda>xx inp bs i prev res y. \<not> (bs = 0 \<and> 0 \<le> sint i \<and> sint i \<le> int (length inp))",
      OF _ assms], goal_cases)
  case (1 f xx inp bs i prev res y)
  show ?case
  proof
    assume a: "bs = 0 \<and> 0 \<le> sint i \<and> sint i \<le> int (length inp)"
    then have "f xx inp bs (i + bs) (xx (goSlice inp (sint i) (sint (i + bs)) @ toBytes prev))
                 (res @ [xx (goSlice inp (sint i) (sint (i + bs)) @ toBytes prev)]) = Some y"
      using 1(2) by simp
    then have "\<not> (bs = 0 \<and> 0 \<le> sint (i + bs) \<and> sint (i + bs) \<le> int (length inp))"
      by (rule 1(1))
    then show False using a by simp
  qed
qed

lemma hashLoop_zero_diverges: "hashLoop xx inp 0 0 prev res = None"
proof (cases "hashLoop xx inp 0 0 prev res")
  case None then show ?thesis .
next
  case (Some y)
  from hashLoop_zero_diverges_aux [OF this] show ?thesis by simp
qed

subsection \<open>matchLongestPrefix\<close>

lemma lookup0_incrementAll:
  "lookup0 (incrementAll cs res) r = lookup0 res r + (if r \<in> cs then 1 else 0)"
  by (simp add: lookup0_def incrementAll_def)

lemma matchLoop_bounds:
  "lookup0 res r \<le> lookup0 (matchLoop get hashes res) r
   \<and> lookup0 (matchLoop get hashes res) r \<le> lookup0 res r + int (length hashes)"
proof (induction hashes arbitrary: res)
  case Nil
  show ?case by simp
next
  case (Cons h hs)
  show ?case
  proof (cases "get h = {}")
    case True
    then show ?thesis by simp
  next
    case False
    from Cons.IH [of "incrementAll (get h) res"] False show ?thesis
      by (simp add: lookup0_incrementAll split: if_splits)
  qed
qed

lemma matchLongestPrefix_bounds:
  "0 \<le> lookup0 (matchLongestPrefix get hashes) r
   \<and> lookup0 (matchLongestPrefix get hashes) r \<le> int (length hashes)"
  using matchLoop_bounds [of Map.empty r get hashes]
  by (simp add: matchLongestPrefix_def lookup0_def)

text \<open>What the walk counts: the blocks, up to the first block that no replica holds, that
  the replica holds.  It is at least the longest prefix match.\<close>

lemma matchLoop_counts:
  "lookup0 (matchLoop get hashes res) r =
     lookup0 res r
       + int (length (filter (\<lambda>h. r \<in> get h) (takeWhile (\<lambda>h. get h \<noteq> {}) hashes)))"
proof (induction hashes arbitrary: res)
  case Nil
  show ?case by simp
next
  case (Cons h hs)
  show ?case
  proof (cases "get h = {}")
    case True
    then show ?thesis by simp
  next
    case False
    then show ?thesis
      using Cons.IH [of "incrementAll (get h) res"] by (simp add: lookup0_incrementAll)
  qed
qed

lemma matchLongestPrefix_counts:
  "lookup0 (matchLongestPrefix get hashes) r =
     int (length (filter (\<lambda>h. r \<in> get h) (takeWhile (\<lambda>h. get h \<noteq> {}) hashes)))"
proof -
  have "lookup0 Map.empty r = 0" by (simp add: lookup0_def)
  then show ?thesis
    unfolding matchLongestPrefix_def matchLoop_counts by simp
qed

lemma longestPrefixMatch_le:
  "longestPrefixMatch get hashes r \<le> lookup0 (matchLongestPrefix get hashes) r"
proof -
  have "length (takeWhile (\<lambda>h. r \<in> get h) hs)
          \<le> length (filter (\<lambda>h. r \<in> get h) (takeWhile (\<lambda>h. get h \<noteq> {}) hs))" for hs
    by (induction hs) auto
  then show ?thesis
    by (simp add: longestPrefixMatch_def matchLongestPrefix_counts)
qed

section \<open>Properties of the director\<close>

subsection \<open>The endpoint loop of candidate selection\<close>

lemma endpointAddresses_Panic_iff:
  "(\<exists>e. endpointAddresses l acc = Panic e) \<longleftrightarrow> (\<exists>v \<in> set l. \<not> isString v)"
proof (induction l arbitrary: acc)
  case Nil
  show ?case by simp
next
  case (Cons v vs)
  show ?case
  proof (cases v)
    case (AString s)
    then show ?thesis using Cons.IH [of "acc @ [splitFirst s]"] by (simp add: isString_def)
  qed (simp_all add: isString_def)
qed

lemma endpointAddresses_Panic_kind:
  "endpointAddresses l acc = Panic e \<Longrightarrow> e = InterfaceConversion"
proof (induction l arbitrary: acc)
  case Nil
  then show ?case by simp
next
  case (Cons v vs)
  then show ?case by (cases v) auto
qed

lemma endpointAddresses_Return:
  "\<forall>v \<in> set l. isString v \<Longrightarrow>
   endpointAddresses l acc = Return (acc @ map (\<lambda>v. case v of AString s \<Rightarrow> splitFirst s | _ \<Rightarrow> []) l)"
proof (induction l arbitrary: acc)
  case Nil
  show ?case by simp
next
  case (Cons v vs)
  then show ?case by (cases v) (simp_all add: isString_def)
qed

subsection \<open>The errors and the calls of scheduling and preparing\<close>

lemma prepareRequest_error:
  assumes "prepareRequest env d reqCtx result = Return (reqCtx', Some err, calls)"
  shows "err = Error Internal ''results must be greater than zero''
       \<or> err = Error BadRequest ''targetPorts should have length 1''
       \<or> PoolGet (datastore d) = Inl err"
  using assms
  by (auto simp: prepareRequest_def split: option.splits if_splits sum.splits list.splits)

lemma prepareRequest_calls:
  assumes "prepareRequest env d reqCtx result = Return (reqCtx', err, calls)"
  shows "CallIsSaturated \<notin> set calls"
  using assms
  by (auto simp: prepareRequest_def split: option.splits if_splits sum.splits list.splits)

lemma getCandidatePodsForScheduling_calls:
  assumes "getCandidatePodsForScheduling env d md = Return (pods, calls)"
  shows "CallIsSaturated \<notin> set calls"
  using assms
  by (auto simp: getCandidatePodsForScheduling_def split: option.splits if_splits outcome.splits)

lemma scheduleAndPrepare_error:
  assumes "scheduleAndPrepare env d reqCtx request = Return (reqCtx', Some err, calls)"
  shows "Code err \<in> {ServiceUnavailable, InferencePoolResourceExhausted} \<and> err \<noteq> saturatedError
           \<and> (\<exists>c m. err = Error c m)
       \<or> err = Error Internal ''results must be greater than zero''
       \<or> err = Error BadRequest ''targetPorts should have length 1''
       \<or> PoolGet (datastore d) = Inl err"
proof -
  from assms consider
      (none) "err = Error ServiceUnavailable ''failed to find candidate pods for serving the request''"
    | (sched) e where "err = Error InferencePoolResourceExhausted (''failed to find target pod: '' @ e)"
    | (prep) r res c where "prepareRequest env d r res = Return (reqCtx', Some err, c)"
    by (auto simp: scheduleAndPrepare_def split: outcome.splits if_splits sum.splits prod.splits)
  then show ?thesis
  proof cases
    case none then show ?thesis by (simp add: saturatedError_def)
  next
    case sched then show ?thesis by (simp add: saturatedError_def)
  next
    case prep
    from prepareRequest_error [OF this] show ?thesis by blast
  qed
qed

lemma scheduleAndPrepare_calls:
  assumes "scheduleAndPrepare env d reqCtx request = Return (reqCtx', err, calls)"
  shows "CallIsSaturated \<notin> set calls"
  using assms getCandidatePodsForScheduling_calls prepareRequest_calls
  by (fastforce simp: scheduleAndPrepare_def split: outcome.splits if_splits sum.splits prod.splits)

subsection \<open>HandleRequest, step by step\<close>

lemma HandleRequest_no_model:
  assumes "\<forall>s. map_of (Body reqCtx) ''model'' \<noteq> Some (AString s)"
  shows "HandleRequest env d reqCtx = Return (reqCtx\<lparr>IncomingModelName := []\<rparr>, Some modelNotFound, [])"
  using assms
  by (simp add: HandleRequest_def assertString_def split: option.splits any.splits)

lemma HandleRequest_extract_error:
  assumes "map_of (Body reqCtx) ''model'' = Some (AString incoming)"
    and "ExtractRequestData (jsonPkg env) (ErrorMethod env) (Body (resolveTargetModel reqCtx incoming))
           = Inl err"
  shows "HandleRequest env d reqCtx =
           Return (resolveTargetModel reqCtx incoming,
             Some (Error BadRequest (''failed to extract request data: '' @ ErrorMethod env err)), [])"
  using assms by (simp add: HandleRequest_def assertString_def)

lemma resolveTargetModel_keys:
  "ObjectiveKey (resolveTargetModel reqCtx incoming) = ObjectiveKey reqCtx"
  "FairnessID (resolveTargetModel reqCtx incoming) = FairnessID reqCtx"
  by (simp_all add: resolveTargetModel_def Let_def)

lemma HandleRequest_admission:
  assumes "map_of (Body reqCtx) ''model'' = Some (AString incoming)"
    and "ExtractRequestData (jsonPkg env) (ErrorMethod env) (Body (resolveTargetModel reqCtx incoming))
           = Inr requestData"
    and "reqCtx2 = (resolveTargetModel reqCtx incoming)
           \<lparr>SchedulingRequest := Some (assembleRequest env (resolveTargetModel reqCtx incoming) requestData)\<rparr>"
  shows "HandleRequest env d reqCtx =
           (case admitRequest d (resolvePriority d (ObjectiveKey reqCtx)) (FairnessID reqCtx) of
              (Some err, calls) \<Rightarrow>
                Return (reqCtx2, Some err, CallObjectiveGet (ObjectiveKey reqCtx) # calls)
            | (None, calls) \<Rightarrow>
                (case scheduleAndPrepare env d reqCtx2
                        (assembleRequest env (resolveTargetModel reqCtx incoming) requestData) of
                   Panic e \<Rightarrow> Panic e
                 | Return (reqCtx', err, calls') \<Rightarrow>
                     Return (reqCtx', err, CallObjectiveGet (ObjectiveKey reqCtx) # calls @ calls')))"
  using assms
  by (simp add: HandleRequest_def assertString_def Let_def resolveTargetModel_keys
        split: prod.splits option.splits outcome.splits)

lemma HandleRequest_calls_after_extraction:
  assumes "map_of (Body reqCtx) ''model'' = Some (AString incoming)"
    and "ExtractRequestData (jsonPkg env) (ErrorMethod env) (Body (resolveTargetModel reqCtx incoming))
           = Inr requestData"
    and "HandleRequest env d reqCtx = Return (reqCtx', err, calls)"
  shows "calls \<noteq> []"
  using assms(3) unfolding HandleRequest_admission [OF assms(1,2) refl]
  by (auto split: prod.splits option.splits outcome.splits)

section \<open>The claims\<close>

text \<open>
  Claim C1.  The value computed for a replica is its longest contiguous prefix match from
  block 0.  \<open>matchLongestPrefix\<close> increments the count of every replica in the set of the
  current block, whether or not the replica was in the sets of the blocks before: with
  block 1 held for pod-a only and block 2 held for pod-a and pod-b, pod-b is credited with
  one block although its longest prefix match is empty.
\<close>

theorem matchLongestPrefix_counts_after_a_miss:
  "lookup0 (matchLongestPrefix sampleGet [1, 2]) serverB = 1
   \<and> longestPrefixMatch sampleGet [1, 2] serverB = 0"
  by (simp add: matchLongestPrefix_def longestPrefixMatch_def sampleGet_def lookup0_def
        incrementAll_def serverA_def serverB_def)

text \<open>
  Claim C2, as stated, has a request whose \<open>body["model"]\<close> is the empty string rejected
  with "model not found in request body".  The check is the type assertion
  \<open>requestBodyMap["model"].(string)\<close> alone, which the empty string passes: such a request
  with a prompt is admitted, scheduled and prepared without any error.
\<close>

theorem HandleRequest_accepts_empty_model:
  "map_of (Body (sampleContext '''' [(''model'', AString ''''), (''prompt'', AString ''hello'')] []))
       ''model'' = Some (AString '''')
   \<and> HandleRequest sampleEnv (sampleDirector False)
       (sampleContext '''' [(''model'', AString ''''), (''prompt'', AString ''hello'')] [])
     = Return
         (\<lparr>IncomingModelName = '''', TargetModelName = '''', ObjectiveKey = '''', FairnessID = '''',
           ReqHeaders = [(''x-request-id'', ''req-1'')],
           Body = [(''model'', AString ''''), (''prompt'', AString ''hello'')],
           Metadata = [],
           SchedulingRequest =
             Some \<lparr>RequestId = ''req-1'', TargetModel = '''',
                   Data = Some \<lparr>Completions = Some \<lparr>Prompt = ''hello''\<rparr>, ChatCompletions = None\<rparr>,
                   Headers = [(''x-request-id'', ''req-1'')]\<rparr>,
           TargetPod = Some \<lparr>NamespacedName = serverA, Address = ''10.0.0.1''\<rparr>,
           TargetEndpoint = ''10.0.0.1:8000''\<rparr>,
          None,
          [CallObjectiveGet '''', CallPodList, CallSchedule, CallPoolGet,
           CallPreRequest \<lparr>Type = PrefixCachePluginType, PluginName = PrefixCachePluginType\<rparr>])"
  by (simp add: HandleRequest_def sampleContext_def sampleEnv_def sampleDirector_def
        assertString_def resolveTargetModel_def assembleRequest_def headerValue_def
        ExtractRequestData_def sampleCodec_def resolvePriority_def admitRequest_def
        scheduleAndPrepare_def getCandidatePodsForScheduling_def assertMap_def
        toSchedulerPodMetrics_def AllPodsPredicate_def samplePod_def prepareRequest_def
        sampleResult_def JoinHostPort_def Itoa_def)

text \<open>
  Claim C2, amended.  \<open>HandleRequest\<close> returns the bad request "model not found in request
  body" if and only if \<open>body["model"]\<close> is absent or is not a string (the empty string is
  a string).  This holds of the error returned before any collaborator has been called.
  It holds of the error returned at any point when the datastore's \<open>PoolGet\<close>, whose
  error is the one error the director passes on unchanged, does not return this very
  error: the other errors the director makes have other codes or messages.
\<close>

theorem HandleRequest_model_not_found:
  "((\<exists>reqCtx'. HandleRequest env d reqCtx = Return (reqCtx', Some modelNotFound, []))
      \<longleftrightarrow> (\<forall>s. map_of (Body reqCtx) ''model'' \<noteq> Some (AString s)))
   \<and> (PoolGet (datastore d) \<noteq> Inl modelNotFound \<longrightarrow>
        ((\<exists>reqCtx' calls. HandleRequest env d reqCtx = Return (reqCtx', Some modelNotFound, calls))
           \<longleftrightarrow> (\<forall>s. map_of (Body reqCtx) ''model'' \<noteq> Some (AString s))))"
proof (intro conjI impI)
  show "(\<exists>reqCtx'. HandleRequest env d reqCtx = Return (reqCtx', Some modelNotFound, []))
      \<longleftrightarrow> (\<forall>s. map_of (Body reqCtx) ''model'' \<noteq> Some (AString s))"
  proof
    assume "\<forall>s. map_of (Body reqCtx) ''model'' \<noteq> Some (AString s)"
    then show "\<exists>reqCtx'. HandleRequest env d reqCtx = Return (reqCtx', Some modelNotFound, [])"
      by (simp add: HandleRequest_no_model)
  next
    assume "\<exists>reqCtx'. HandleRequest env d reqCtx = Return (reqCtx', Some modelNotFound, [])"
    then obtain reqCtx' where
      r: "HandleRequest env d reqCtx = Return (reqCtx', Some modelNotFound, [])" by blast
    show "\<forall>s. map_of (Body reqCtx) ''model'' \<noteq> Some (AString s)"
    proof (intro allI notI)
      fix s assume m: "map_of (Body reqCtx) ''model'' = Some (AString s)"
      show False
      proof (cases "ExtractRequestData (jsonPkg env) (ErrorMethod env) (Body (resolveTargetModel reqCtx s))")
        case (Inl err)
        from r show False
          unfolding HandleRequest_extract_error [OF m Inl] by (simp add: modelNotFound_def)
      next
        case (Inr requestData)
        from HandleRequest_calls_after_extraction [OF m Inr r] show False by simp
      qed
    qed
  qed
next
  assume pool: "PoolGet (datastore d) \<noteq> Inl modelNotFound"
  show "(\<exists>reqCtx' calls. HandleRequest env d reqCtx = Return (reqCtx', Some modelNotFound, calls))
           \<longleftrightarrow> (\<forall>s. map_of (Body reqCtx) ''model'' \<noteq> Some (AString s))"
  proof
    assume "\<forall>s. map_of (Body reqCtx) ''model'' \<noteq> Some (AString s)"
    then show "\<exists>reqCtx' calls. HandleRequest env d reqCtx = Return (reqCtx', Some modelNotFound, calls)"
      by (simp add: HandleRequest_no_model)
  next
    assume "\<exists>reqCtx' calls. HandleRequest env d reqCtx = Return (reqCtx', Some modelNotFound, calls)"
    then obtain reqCtx' calls where
      r: "HandleRequest env d reqCtx = Return (reqCtx', Some modelNotFound, calls)" by blast
    show "\<forall>s. map_of (Body reqCtx) ''model'' \<noteq> Some (AString s)"
    proof (intro allI notI)
      fix s assume m: "map_of (Body reqCtx) ''model'' = Some (AString s)"
      show False
      proof (cases "ExtractRequestData (jsonPkg env) (ErrorMethod env) (Body (resolveTargetModel reqCtx s))")
        case (Inl err)
        from r show False
          unfolding HandleRequest_extract_error [OF m Inl] by (simp add: modelNotFound_def)
      next
        case (Inr requestData)
        let ?ctx = "(resolveTargetModel reqCtx s)
             \<lparr>SchedulingRequest := Some (assembleRequest env (resolveTargetModel reqCtx s) requestData)\<rparr>"
        from r [unfolded HandleRequest_admission [OF m Inr refl]]
        have "\<exists>c. scheduleAndPrepare env d ?ctx (assembleRequest env (resolveTargetModel reqCtx s) requestData)
                = Return (reqCtx', Some modelNotFound, c)"
          by (auto simp: admitRequest_def saturatedError_def modelNotFound_def
                split: if_splits outcome.splits prod.splits)
        then obtain c where "scheduleAndPrepare env d ?ctx
                  (assembleRequest env (resolveTargetModel reqCtx s) requestData)
                = Return (reqCtx', Some modelNotFound, c)" ..
        from scheduleAndPrepare_error [OF this] pool show False
          by (auto simp: modelNotFound_def)
      qed
    qed
  qed
qed

text \<open>The theorem at a body whose model is the number 7.\<close>

theorem HandleRequest_model_not_found_witness:
  "PoolGet (datastore (sampleDirector False)) \<noteq> Inl modelNotFound
   \<and> (\<forall>s. map_of (Body (sampleContext '''' [(''model'', ANumber 7), (''prompt'', AString ''hello'')] []))
              ''model'' \<noteq> Some (AString s))
   \<and> (\<exists>reqCtx' calls.
          HandleRequest sampleEnv (sampleDirector False)
            (sampleContext '''' [(''model'', ANumber 7), (''prompt'', AString ''hello'')] [])
          = Return (reqCtx', Some modelNotFound, calls))"
proof -
  have p: "PoolGet (datastore (sampleDirector False)) \<noteq> Inl modelNotFound"
    by (simp add: sampleDirector_def)
  have m: "\<forall>s. map_of (Body (sampleContext '''' [(''model'', ANumber 7), (''prompt'', AString ''hello'')] []))
              ''model'' \<noteq> Some (AString s)"
    by (simp add: sampleContext_def)
  from HandleRequest_model_not_found [of sampleEnv "sampleDirector False"
      "sampleContext '''' [(''model'', ANumber 7), (''prompt'', AString ''hello'')] []"] p m
  have "\<exists>reqCtx' calls.
          HandleRequest sampleEnv (sampleDirector False)
            (sampleContext '''' [(''model'', ANumber 7), (''prompt'', AString ''hello'')] [])
          = Return (reqCtx', Some modelNotFound, calls)"
    by blast
  with p m show ?thesis by blast
qed

text \<open>
  Claim C3.  The number of hashes is \<open>min(L, block_size * max_blocks) / block_size\<close> for
  every positive block size and block count.  The product \<open>cacheBlockSize * maxPrefixBlocks\<close>
  is computed in 64-bit integers and wraps around: with block size 64, the largest
  \<open>int\<close> as block count, and a prompt of exactly 64 bytes the product is \<open>-64\<close>, the prompt
  is longer than that, and the truncation \<open>userInput[:-64]\<close> panics, where the claim
  promises one hash.
\<close>

theorem hashPrompt_max_blocks_overflow:
  "hashPrompt sampleHash sampleMarshal (Some (sampleRequest (replicate 64 (CHR ''a''))))
     64 9223372036854775807 = Some (Panic SliceBoundsOutOfRange)"
  by (simp add: hashPrompt_def sampleRequest_def sampleData_def getUserInputBytes_def bytesOf_def)

text \<open>
  Claim C4.  For every request and every block size greater than 0, whenever \<open>hashPrompt\<close>
  returns a sequence of hashes, its \<open>i\<close>-th element is the chained hash \<open>h\<^bsub>i+1\<^esub>\<close> of the
  specification: \<open>h\<^sub>0\<close> is the hash of the target model, and \<open>h\<^bsub>i+1\<^esub>\<close> the hash of the bytes
  \<open>[i * block_size, (i + 1) * block_size)\<close> of the user input followed by the little-endian
  8-byte encoding of \<open>h\<^sub>i\<close>.  The hashes are emitted in increasing block order.
\<close>

theorem hashPrompt_chained_hash:
  fixes cacheBlockSize maxPrefixBlocks :: go_int
  assumes "0 < sint cacheBlockSize"
    and "Data request = Some d"
    and "getUserInputBytes jsonMarshal d = Return (Inr userInput)"
    and "hashPrompt xxhash jsonMarshal (Some request) cacheBlockSize maxPrefixBlocks = Some (Return hashes)"
    and "i < length hashes"
  shows "hashes ! i =
           chainedHash xxhash (TargetModel request) userInput (nat (sint cacheBlockSize)) (Suc i)"
proof -
  have "hashes = map (\<lambda>j. chainedHash xxhash (TargetModel request) userInput
                              (nat (sint cacheBlockSize)) (Suc j)) [0..<length hashes]"
    using assms(1-4) by (rule hashPrompt_Return_chained)
  then have "hashes ! i = map (\<lambda>j. chainedHash xxhash (TargetModel request) userInput
                              (nat (sint cacheBlockSize)) (Suc j)) [0..<length hashes] ! i"
    by simp
  also have "\<dots> = chainedHash xxhash (TargetModel request) userInput (nat (sint cacheBlockSize)) (Suc i)"
    using assms(5) by simp
  finally show ?thesis .
qed

text \<open>The theorem at a four-byte prompt and block size 2: two hashes are returned, and the
  second one is \<open>h\<^sub>2\<close>.\<close>

theorem hashPrompt_chained_hash_witness:
  "0 < sint (2 :: go_int)
   \<and> Data (sampleRequest ''abcd'') = Some (sampleData ''abcd'')
   \<and> getUserInputBytes sampleMarshal (sampleData ''abcd'') = Return (Inr (bytesOf ''abcd''))
   \<and> (\<exists>hashes. hashPrompt sampleHash sampleMarshal (Some (sampleRequest ''abcd'')) 2 256
                    = Some (Return hashes)
          \<and> 1 < length hashes
          \<and> hashes ! 1 = chainedHash sampleHash ''m'' (bytesOf ''abcd'') 2 2)"
proof -
  let ?hs = "map (\<lambda>j. chainedHash sampleHash (TargetModel (sampleRequest ''abcd''))
                       (bytesOf ''abcd'') (nat (sint (2 :: go_int))) (Suc j))
               [0..<nat (min (int (length (bytesOf ''abcd''))) (sint (2 :: go_int) * sint (256 :: go_int))
                          div sint (2 :: go_int))]"
  have b: "0 < sint (2 :: go_int)" by simp
  have d: "Data (sampleRequest ''abcd'') = Some (sampleData ''abcd'')"
    by (simp add: sampleRequest_def)
  have u: "getUserInputBytes sampleMarshal (sampleData ''abcd'') = Return (Inr (bytesOf ''abcd''))"
    by (simp add: getUserInputBytes_def sampleData_def)
  have r: "hashPrompt sampleHash sampleMarshal (Some (sampleRequest ''abcd'')) 2 256 = Some (Return ?hs)"
    by (rule hashPrompt_no_overflow [OF b _ _ _ d u]) (simp_all add: bytesOf_def)
  have len: "length ?hs = 2" by (simp add: bytesOf_def)
  then have i: "1 < length ?hs" by simp
  have "?hs ! 1 = chainedHash sampleHash (TargetModel (sampleRequest ''abcd''))
                    (bytesOf ''abcd'') (nat (sint (2 :: go_int))) (Suc 1)"
    using b d u r i by (rule hashPrompt_chained_hash)
  then have "?hs ! 1 = chainedHash sampleHash ''m'' (bytesOf ''abcd'') 2 2"
    by (simp add: sampleRequest_def numeral_2_eq_2)
  with b d u r i show ?thesis by blast
qed

text \<open>
  Claim C5.  Whenever \<open>hashPrompt\<close> returns the hashes of the request, \<open>Score\<close> returns,
  for every candidate pod, the score \<open>match_len / total_blocks\<close> when there is at least one
  block and 0 when there is none, where \<open>match_len\<close> is the pod's entry in the map computed
  by \<open>matchLongestPrefix\<close> (0 when absent).  Every entry of that map lies between 0 and the
  number of hashes, so every score lies in the interval from 0 to 1.  The state written to
  the store under the request id holds the hashes and the map.
\<close>

theorem Score_scores:
  assumes "hashPrompt xxhash jsonMarshal (Some request)
             (HashBlockSize (config p)) (MaxPrefixBlocksToMatch (config p)) = Some (Return hashes)"
    and "servers = matchLongestPrefix (Get ix (indexer p)) hashes"
  shows "\<exists>scores p'.
           Score xxhash jsonMarshal ix p (Some request) pods = Some (Return (scores, p'))
         \<and> scores = map (\<lambda>pod. (pod,
                         if length hashes = 0 then 0
                         else real_of_int (lookup0 servers (NamespacedName (GetPod pod)))
                                / real (length hashes))) pods
         \<and> (\<forall>(pod, score) \<in> set scores. 0 \<le> score \<and> score \<le> 1)
         \<and> (\<forall>r. 0 \<le> lookup0 servers r \<and> lookup0 servers r \<le> int (length hashes))
         \<and> pluginState p' (RequestId request, Type (typedName p))
             = Some (PrefixState \<lparr>PrefixHashes = hashes, PrefixCacheServers = servers\<rparr>)"
proof -
  let ?state = "\<lparr>PrefixHashes = hashes, PrefixCacheServers = servers\<rparr>"
  let ?score = "\<lambda>pod :: 'c PodMetrics.
                     if length hashes = 0 then 0
                     else real_of_int (lookup0 servers (NamespacedName (GetPod pod)))
                            / real (length hashes)"
  let ?p' = "p\<lparr>pluginState :=
                Write (pluginState p) (RequestId request) (Type (typedName p)) (PrefixState ?state)\<rparr>"
  have bounds: "0 \<le> lookup0 servers r \<and> lookup0 servers r \<le> int (length hashes)" for r
    unfolding assms(2) by (rule matchLongestPrefix_bounds)
  have score: "0 \<le> ?score pod \<and> ?score pod \<le> 1" for pod
  proof (cases "length hashes = 0")
    case True
    then show ?thesis by simp
  next
    case False
    then have pos: "0 < real (length hashes)" by simp
    from bounds [of "NamespacedName (GetPod pod)"] pos show ?thesis
      by (simp add: False divide_le_eq_1_pos)
  qed
  have ret: "Score xxhash jsonMarshal ix p (Some request) pods =
           Some (Return (map (\<lambda>pod. (pod, ?score pod)) pods, ?p'))"
    using assms(1) by (simp add: Score_def podScoreFunc_def assms(2))
  have all: "\<forall>(pod, s) \<in> set (map (\<lambda>pod. (pod, ?score pod)) pods). 0 \<le> s \<and> s \<le> 1"
  proof (rule ballI)
    fix x assume "x \<in> set (map (\<lambda>pod. (pod, ?score pod)) pods)"
    then obtain pod where x: "x = (pod, ?score pod)" by auto
    from score [of pod] show "case x of (pod, s) \<Rightarrow> 0 \<le> s \<and> s \<le> 1"
      unfolding x by (simp only: prod.case)
  qed
  have st: "pluginState ?p' (RequestId request, Type (typedName p)) = Some (PrefixState ?state)"
    by (simp add: Write_def)
  from ret all bounds st show ?thesis by blast
qed

text \<open>The theorem at a four-byte prompt, block size 2 and an indexer that holds every block
  for pod-a: the one candidate, pod-a, scores 1.\<close>

theorem Score_scores_witness:
  "hashPrompt sampleHash sampleMarshal (Some (sampleRequest ''abcd''))
     (HashBlockSize (config (samplePlugin\<lparr>indexer := (\<lambda>h. {serverA})\<rparr>)))
     (MaxPrefixBlocksToMatch (config (samplePlugin\<lparr>indexer := (\<lambda>h. {serverA})\<rparr>)))
     = Some (Return (map (\<lambda>j. chainedHash sampleHash ''m'' (bytesOf ''abcd'') 2 (Suc j)) [0..<2]))
   \<and> (\<exists>p'. Score sampleHash sampleMarshal sampleIndexer (samplePlugin\<lparr>indexer := (\<lambda>h. {serverA})\<rparr>)
              (Some (sampleRequest ''abcd'')) [samplePod]
            = Some (Return ([(samplePod, 1)], p')))"
proof -
  let ?p = "samplePlugin\<lparr>indexer := (\<lambda>h. {serverA})\<rparr>"
  let ?hs = "map (\<lambda>j. chainedHash sampleHash ''m'' (bytesOf ''abcd'') 2 (Suc j)) [0..<2]"
  have b: "0 < sint (2 :: go_int)" by simp
  have d: "Data (sampleRequest ''abcd'') = Some (sampleData ''abcd'')"
    by (simp add: sampleRequest_def)
  have u: "getUserInputBytes sampleMarshal (sampleData ''abcd'') = Return (Inr (bytesOf ''abcd''))"
    by (simp add: getUserInputBytes_def sampleData_def)
  have "hashPrompt sampleHash sampleMarshal (Some (sampleRequest ''abcd'')) 2 256 =
          Some (Return (map (\<lambda>j. chainedHash sampleHash (TargetModel (sampleRequest ''abcd''))
                       (bytesOf ''abcd'') (nat (sint (2 :: go_int))) (Suc j))
               [0..<nat (min (int (length (bytesOf ''abcd''))) (sint (2 :: go_int) * sint (256 :: go_int))
                          div sint (2 :: go_int))]))"
    by (rule hashPrompt_no_overflow [OF b _ _ _ d u]) (simp_all add: bytesOf_def)
  then have r: "hashPrompt sampleHash sampleMarshal (Some (sampleRequest ''abcd''))
                  (HashBlockSize (config ?p)) (MaxPrefixBlocksToMatch (config ?p)) = Some (Return ?hs)"
    by (simp add: samplePlugin_def sampleRequest_def bytesOf_def)
  have m: "lookup0 (matchLongestPrefix (Get sampleIndexer (indexer ?p)) ?hs) serverA = 2"
    by (simp add: matchLongestPrefix_def sampleIndexer_def upt_rec lookup0_def incrementAll_def)
  from Score_scores [OF r refl, of sampleIndexer "[samplePod]"] m
  have "\<exists>p'. Score sampleHash sampleMarshal sampleIndexer ?p (Some (sampleRequest ''abcd'')) [samplePod]
            = Some (Return ([(samplePod, 1)], p'))"
    by (auto simp: samplePod_def)
  with r show ?thesis by blast
qed

text \<open>
  Claim C6.  For a body that serialises (as every map decoded from JSON does):
  if it parses as a completions request with a non-empty prompt, \<open>ExtractRequestData\<close>
  returns the Completions variant and leaves ChatCompletions empty; otherwise the
  chat-completions parse is attempted, a parse failure is the bad request "invalid request
  format", an empty message list is a bad request whose message is "invalid
  chat-completions request: " followed by the text of the validation error, and otherwise
  the ChatCompletions variant alone is returned.
  Every record returned has exactly one variant populated, a Completions variant has a
  non-empty prompt and a ChatCompletions variant has at least one message.
\<close>

theorem ExtractRequestData_variants:
  assumes "Marshal json body = Some jsonBytes"
  shows "(\<forall>completions.
            UnmarshalCompletions json jsonBytes = Some completions \<and> Prompt completions \<noteq> []
            \<longrightarrow> ExtractRequestData json errorString body
                  = Inr \<lparr>Completions = Some completions, ChatCompletions = None\<rparr>)
       \<and> ((\<forall>completions. UnmarshalCompletions json jsonBytes = Some completions
                          \<longrightarrow> Prompt completions = [])
            \<longrightarrow> (case UnmarshalChatCompletions json jsonBytes of
                   None \<Rightarrow>
                     ExtractRequestData json errorString body
                       = Inl (Error BadRequest ''invalid request format'')
                 | Some chat \<Rightarrow>
                     if Messages chat = []
                     then ExtractRequestData json errorString body
                            = Inl (Error BadRequest
                                (''invalid chat-completions request: ''
                                 @ errorString (Error BadRequest
                                     ''chat-completions request must have at least one message'')))
                     else ExtractRequestData json errorString body
                            = Inr \<lparr>Completions = None, ChatCompletions = Some chat\<rparr>))
       \<and> (\<forall>requestData.
            ExtractRequestData json errorString body = Inr requestData
            \<longrightarrow> (Completions requestData = None) \<noteq> (ChatCompletions requestData = None)
               \<and> (\<forall>completions. Completions requestData = Some completions
                                  \<longrightarrow> Prompt completions \<noteq> [])
               \<and> (\<forall>chat. ChatCompletions requestData = Some chat \<longrightarrow> Messages chat \<noteq> []))"
proof (intro conjI allI impI)
  fix completions
  assume "UnmarshalCompletions json jsonBytes = Some completions \<and> Prompt completions \<noteq> []"
  then show "ExtractRequestData json errorString body
               = Inr \<lparr>Completions = Some completions, ChatCompletions = None\<rparr>"
    using assms by (simp add: ExtractRequestData_def)
next
  assume no: "\<forall>completions. UnmarshalCompletions json jsonBytes = Some completions
                \<longrightarrow> Prompt completions = []"
  then have c: "\<not> (case UnmarshalCompletions json jsonBytes of
                      None \<Rightarrow> False | Some completions \<Rightarrow> Prompt completions \<noteq> [])"
    by (simp split: option.splits)
  show "case UnmarshalChatCompletions json jsonBytes of
          None \<Rightarrow>
            ExtractRequestData json errorString body = Inl (Error BadRequest ''invalid request format'')
        | Some chat \<Rightarrow>
            if Messages chat = []
            then ExtractRequestData json errorString body
                   = Inl (Error BadRequest
                       (''invalid chat-completions request: ''
                        @ errorString (Error BadRequest
                            ''chat-completions request must have at least one message'')))
            else ExtractRequestData json errorString body
                   = Inr \<lparr>Completions = None, ChatCompletions = Some chat\<rparr>"
    using assms c
    by (simp add: ExtractRequestData_def validateChatCompletionsMessages_def split: option.splits)
next
  fix requestData
  assume r: "ExtractRequestData json errorString body = Inr requestData"
  show "(Completions requestData = None) \<noteq> (ChatCompletions requestData = None)"
    using r assms
    by (auto simp: ExtractRequestData_def validateChatCompletionsMessages_def
          split: option.splits if_splits)
next
  fix requestData completions
  assume r: "ExtractRequestData json errorString body = Inr requestData"
    and c: "Completions requestData = Some completions"
  show "Prompt completions \<noteq> []"
    using r c assms
    by (auto simp: ExtractRequestData_def validateChatCompletionsMessages_def
          split: option.splits if_splits)
next
  fix requestData chat
  assume r: "ExtractRequestData json errorString body = Inr requestData"
    and c: "ChatCompletions requestData = Some chat"
  show "Messages chat \<noteq> []"
    using r c assms
    by (auto simp: ExtractRequestData_def validateChatCompletionsMessages_def
          split: option.splits if_splits)
qed

text \<open>The theorem at the bodies \<open>{"model": "m", "prompt": "hello"}\<close> and
  \<open>{"model": "m", "messages": [{"role": "user", "content": "hello"}]}\<close>.\<close>

theorem ExtractRequestData_variants_witness:
  "Marshal sampleCodec [(''model'', AString ''m''), (''prompt'', AString ''hello'')]
     = Some [(''model'', AString ''m''), (''prompt'', AString ''hello'')]
   \<and> UnmarshalCompletions sampleCodec [(''model'', AString ''m''), (''prompt'', AString ''hello'')]
     = Some \<lparr>Prompt = ''hello''\<rparr>
   \<and> ExtractRequestData sampleCodec sampleErrorString
       [(''model'', AString ''m''), (''prompt'', AString ''hello'')]
     = Inr \<lparr>Completions = Some \<lparr>Prompt = ''hello''\<rparr>, ChatCompletions = None\<rparr>
   \<and> Marshal sampleCodec
       [(''model'', AString ''m''),
        (''messages'', AList [AMap [(''role'', AString ''user''), (''content'', AString ''hello'')]])]
     = Some [(''model'', AString ''m''),
        (''messages'', AList [AMap [(''role'', AString ''user''), (''content'', AString ''hello'')]])]
   \<and> ExtractRequestData sampleCodec sampleErrorString
       [(''model'', AString ''m''),
        (''messages'', AList [AMap [(''role'', AString ''user''), (''content'', AString ''hello'')]])]
     = Inr \<lparr>Completions = None,
            ChatCompletions = Some (chatOf [\<lparr>Role = ''user'', Content = ''hello''\<rparr>])\<rparr>"
proof -
  let ?body = "[(''model'', AString ''m''), (''prompt'', AString ''hello'')]"
  let ?chat = "[(''model'', AString ''m''),
        (''messages'', AList [AMap [(''role'', AString ''user''), (''content'', AString ''hello'')]])]"
  have m: "Marshal sampleCodec ?body = Some ?body" by (simp add: sampleCodec_def)
  have u: "UnmarshalCompletions sampleCodec ?body = Some \<lparr>Prompt = ''hello''\<rparr>"
    by (simp add: sampleCodec_def)
  from ExtractRequestData_variants [OF m, of sampleErrorString] u
  have r: "ExtractRequestData sampleCodec sampleErrorString ?body
          = Inr \<lparr>Completions = Some \<lparr>Prompt = ''hello''\<rparr>, ChatCompletions = None\<rparr>"
    by simp
  have m': "Marshal sampleCodec ?chat = Some ?chat" by (simp add: sampleCodec_def)
  have u': "UnmarshalCompletions sampleCodec ?chat = Some \<lparr>Prompt = []\<rparr>"
    by (simp add: sampleCodec_def)
  have c': "UnmarshalChatCompletions sampleCodec ?chat
             = Some (chatOf [\<lparr>Role = ''user'', Content = ''hello''\<rparr>])"
    by (simp add: sampleCodec_def decodeMessage_def)
  have r': "ExtractRequestData sampleCodec sampleErrorString ?chat
          = Inr \<lparr>Completions = None,
                 ChatCompletions = Some (chatOf [\<lparr>Role = ''user'', Content = ''hello''\<rparr>])\<rparr>"
    using ExtractRequestData_variants [OF m', of sampleErrorString]
    by (simp add: u' c' chatOf_def)
  from m u r m' r' show ?thesis by simp
qed

text \<open>
  Claim C7.  For a request that reaches admission (its model is a string and its data is
  extracted), with \<open>priority\<close> the resolved priority:
  if \<open>priority >= 0\<close>, admission succeeds without consulting the saturation detector, and
  no call of \<open>IsSaturated\<close> is among the calls of \<open>HandleRequest\<close>;
  if \<open>priority < 0\<close>, \<open>admitRequest\<close> returns the error "system saturated, sheddable
  request dropped" of code InferencePoolResourceExhausted if and only if the detector
  reports saturated, and admits the request otherwise, having asked the detector; when the
  detector reports saturated, \<open>HandleRequest\<close> returns that error together with the
  request context, and when it does not, \<open>HandleRequest\<close> does not return that error
  (the datastore's own error from \<open>PoolGet\<close>, passed on unchanged, is taken not to be it).
\<close>

theorem admission_by_priority_and_saturation:
  assumes m: "map_of (Body reqCtx) ''model'' = Some (AString incoming)"
    and x: "ExtractRequestData (jsonPkg env) (ErrorMethod env) (Body (resolveTargetModel reqCtx incoming))
              = Inr requestData"
    and p: "priority = resolvePriority d (ObjectiveKey reqCtx)"
    and c: "reqCtx2 = (resolveTargetModel reqCtx incoming)
              \<lparr>SchedulingRequest :=
                 Some (assembleRequest env (resolveTargetModel reqCtx incoming) requestData)\<rparr>"
  shows "(0 \<le> sint priority \<longrightarrow>
            admitRequest d priority (FairnessID reqCtx) = (None, [])
          \<and> (\<forall>reqCtx' err calls.
                HandleRequest env d reqCtx = Return (reqCtx', err, calls)
                \<longrightarrow> CallIsSaturated \<notin> set calls))
       \<and> (sint priority < 0 \<longrightarrow>
            (fst (admitRequest d priority (FairnessID reqCtx)) = Some saturatedError
               \<longleftrightarrow> saturationDetector d)
          \<and> (\<not> saturationDetector d \<longrightarrow>
                admitRequest d priority (FairnessID reqCtx) = (None, [CallIsSaturated]))
          \<and> (saturationDetector d \<longrightarrow>
                HandleRequest env d reqCtx =
                  Return (reqCtx2, Some saturatedError,
                          [CallObjectiveGet (ObjectiveKey reqCtx), CallIsSaturated]))
          \<and> (\<not> saturationDetector d \<and> PoolGet (datastore d) \<noteq> Inl saturatedError \<longrightarrow>
                \<not> (\<exists>reqCtx' calls.
                      HandleRequest env d reqCtx = Return (reqCtx', Some saturatedError, calls))))"
proof (intro conjI impI allI)
  assume "0 \<le> sint priority"
  then show "admitRequest d priority (FairnessID reqCtx) = (None, [])"
    by (simp add: admitRequest_def)
next
  fix reqCtx' err calls
  assume pos: "0 \<le> sint priority"
    and r: "HandleRequest env d reqCtx = Return (reqCtx', err, calls)"
  from r [unfolded HandleRequest_admission [OF m x c]] pos p
  obtain calls' where s: "scheduleAndPrepare env d reqCtx2
              (assembleRequest env (resolveTargetModel reqCtx incoming) requestData)
            = Return (reqCtx', err, calls')"
    and cs: "calls = CallObjectiveGet (ObjectiveKey reqCtx) # calls'"
    by (auto simp: admitRequest_def split: outcome.splits prod.splits)
  from scheduleAndPrepare_calls [OF s] cs show "CallIsSaturated \<notin> set calls" by simp
next
  assume "sint priority < 0"
  then show "fst (admitRequest d priority (FairnessID reqCtx)) = Some saturatedError
               \<longleftrightarrow> saturationDetector d"
    by (simp add: admitRequest_def)
next
  assume "sint priority < 0" and "\<not> saturationDetector d"
  then show "admitRequest d priority (FairnessID reqCtx) = (None, [CallIsSaturated])"
    by (simp add: admitRequest_def)
next
  assume neg: "sint priority < 0" and sat: "saturationDetector d"
  show "HandleRequest env d reqCtx =
          Return (reqCtx2, Some saturatedError, [CallObjectiveGet (ObjectiveKey reqCtx), CallIsSaturated])"
    unfolding HandleRequest_admission [OF m x c] using neg sat p
    by (simp add: admitRequest_def)
next
  assume neg: "sint priority < 0"
    and ns: "\<not> saturationDetector d \<and> PoolGet (datastore d) \<noteq> Inl saturatedError"
  show "\<not> (\<exists>reqCtx' calls.
            HandleRequest env d reqCtx = Return (reqCtx', Some saturatedError, calls))"
  proof
    assume "\<exists>reqCtx' calls. HandleRequest env d reqCtx = Return (reqCtx', Some saturatedError, calls)"
    then obtain reqCtx' calls where
      r: "HandleRequest env d reqCtx = Return (reqCtx', Some saturatedError, calls)" by blast
    from r [unfolded HandleRequest_admission [OF m x c]] neg ns p
    obtain calls' where s: "scheduleAndPrepare env d reqCtx2
              (assembleRequest env (resolveTargetModel reqCtx incoming) requestData)
            = Return (reqCtx', Some saturatedError, calls')"
      by (auto simp: admitRequest_def split: outcome.splits prod.splits)
    from scheduleAndPrepare_error [OF s] ns show False
      by (auto simp: saturatedError_def)
  qed
qed

text \<open>The theorem at a request of priority -1 while the detector reports saturated: the
  request is dropped, and the context comes back with the scheduling request assembled.
  At priority 0 the same detector is not asked.\<close>

theorem admission_by_priority_and_saturation_witness:
  "map_of (Body (sampleContext ''sheddable'' [(''model'', AString ''m''), (''prompt'', AString ''hello'')] []))
       ''model'' = Some (AString ''m'')
   \<and> ExtractRequestData (jsonPkg sampleEnv) (ErrorMethod sampleEnv)
         (Body (resolveTargetModel
                  (sampleContext ''sheddable'' [(''model'', AString ''m''), (''prompt'', AString ''hello'')] [])
                  ''m''))
       = Inr \<lparr>Completions = Some \<lparr>Prompt = ''hello''\<rparr>, ChatCompletions = None\<rparr>
   \<and> sint (resolvePriority (sampleDirector True) ''sheddable'') < 0
   \<and> saturationDetector (sampleDirector True)
   \<and> HandleRequest sampleEnv (sampleDirector True)
         (sampleContext ''sheddable'' [(''model'', AString ''m''), (''prompt'', AString ''hello'')] [])
       = Return
           (\<lparr>IncomingModelName = ''m'', TargetModelName = ''m'', ObjectiveKey = ''sheddable'',
             FairnessID = '''', ReqHeaders = [(''x-request-id'', ''req-1'')],
             Body = [(''model'', AString ''m''), (''prompt'', AString ''hello'')],
             Metadata = [],
             SchedulingRequest =
               Some \<lparr>RequestId = ''req-1'', TargetModel = ''m'',
                     Data = Some \<lparr>Completions = Some \<lparr>Prompt = ''hello''\<rparr>, ChatCompletions = None\<rparr>,
                     Headers = [(''x-request-id'', ''req-1'')]\<rparr>,
             TargetPod = None, TargetEndpoint = ''''\<rparr>,
            Some saturatedError,
            [CallObjectiveGet ''sheddable'', CallIsSaturated])
   \<and> 0 \<le> sint (resolvePriority (sampleDirector True) '''')
   \<and> admitRequest (sampleDirector True) (resolvePriority (sampleDirector True) '''') '''' = (None, [])"
proof -
  let ?ctx = "sampleContext ''sheddable'' [(''model'', AString ''m''), (''prompt'', AString ''hello'')] []"
  let ?data = "\<lparr>Completions = Some \<lparr>Prompt = ''hello''\<rparr>, ChatCompletions = None\<rparr>"
  have m: "map_of (Body ?ctx) ''model'' = Some (AString ''m'')"
    by (simp add: sampleContext_def)
  have x: "ExtractRequestData (jsonPkg sampleEnv) (ErrorMethod sampleEnv)
             (Body (resolveTargetModel ?ctx ''m'')) = Inr ?data"
    by (simp add: Let_def sampleContext_def sampleEnv_def resolveTargetModel_def ExtractRequestData_def
          sampleCodec_def)
  have k: "ObjectiveKey ?ctx = ''sheddable''" by (simp add: sampleContext_def)
  have p: "sint (resolvePriority (sampleDirector True) ''sheddable'') < 0"
    by (simp add: resolvePriority_def sampleDirector_def)
  have s: "saturationDetector (sampleDirector True)" by (simp add: sampleDirector_def)
  from admission_by_priority_and_saturation [OF m x refl refl, of "sampleDirector True"] p s
  have "HandleRequest sampleEnv (sampleDirector True) ?ctx =
          Return ((resolveTargetModel ?ctx ''m'')
                    \<lparr>SchedulingRequest :=
                       Some (assembleRequest sampleEnv (resolveTargetModel ?ctx ''m'') ?data)\<rparr>,
                  Some saturatedError,
                  [CallObjectiveGet (ObjectiveKey ?ctx), CallIsSaturated])"
    unfolding k by blast
  then have "HandleRequest sampleEnv (sampleDirector True) ?ctx =
          Return
           (\<lparr>IncomingModelName = ''m'', TargetModelName = ''m'', ObjectiveKey = ''sheddable'',
             FairnessID = '''', ReqHeaders = [(''x-request-id'', ''req-1'')],
             Body = [(''model'', AString ''m''), (''prompt'', AString ''hello'')],
             Metadata = [],
             SchedulingRequest =
               Some \<lparr>RequestId = ''req-1'', TargetModel = ''m'',
                     Data = Some ?data,
                     Headers = [(''x-request-id'', ''req-1'')]\<rparr>,
             TargetPod = None, TargetEndpoint = ''''\<rparr>,
            Some saturatedError,
            [CallObjectiveGet ''sheddable'', CallIsSaturated])"
    by (simp add: Let_def sampleContext_def sampleEnv_def resolveTargetModel_def assembleRequest_def
          headerValue_def)
  note dropped = this
  let ?ctx0 = "sampleContext '''' [(''model'', AString ''m''), (''prompt'', AString ''hello'')] []"
  have m0: "map_of (Body ?ctx0) ''model'' = Some (AString ''m'')"
    by (simp add: sampleContext_def)
  have x0: "ExtractRequestData (jsonPkg sampleEnv) (ErrorMethod sampleEnv)
             (Body (resolveTargetModel ?ctx0 ''m'')) = Inr ?data"
    by (simp add: Let_def sampleContext_def sampleEnv_def resolveTargetModel_def ExtractRequestData_def
          sampleCodec_def)
  have k0: "ObjectiveKey ?ctx0 = ''''" "FairnessID ?ctx0 = ''''" by (simp_all add: sampleContext_def)
  have p0: "0 \<le> sint (resolvePriority (sampleDirector True) '''')"
    by (simp add: resolvePriority_def sampleDirector_def)
  from admission_by_priority_and_saturation [OF m0 x0 refl refl, of "sampleDirector True"] p0
  have a0: "admitRequest (sampleDirector True) (resolvePriority (sampleDirector True) '''') '''' = (None, [])"
    unfolding k0 by blast
  from m x p s dropped p0 a0 show ?thesis by blast
qed

text \<open>
  Claim C8.  With a scheduling result whose primary profile has a target pod, \<open>PreRequest\<close>
  returns, and after it the plugin state store is the store before with the entries of
  the request id deleted: it holds no entry for the request id, whether the typed read
  succeeded or failed.  When the read fails the indexer is left as it was and the only
  effect is the logged error: no indexer write and no metric.  When it succeeds the hashes
  are added to the indexer for the target pod and one prefix cache match is recorded.
\<close>

theorem PreRequest_deletes_state:
  assumes "ProfileResults schedulingResult (PrimaryProfileName schedulingResult) = Some primary"
    and "TargetPods primary = pod # pods"
  shows "\<exists>p' effects.
           PreRequest ix p request schedulingResult targetPort = Return (p', effects)
         \<and> pluginState p' = Delete (pluginState p) (RequestId request)
         \<and> (\<forall>key. pluginState p' (RequestId request, key) = None)
         \<and> (case ReadPluginStateKey (pluginState p) (RequestId request) PrefixCachePluginType of
               Inl err \<Rightarrow> indexer p' = indexer p \<and> effects = [LogError err (RequestId request)]
             | Inr state \<Rightarrow>
                 indexer p' = Add ix (indexer p) (PrefixHashes state) (NamespacedName (GetPod pod))
                 \<and> effects =
                     [IndexerAdd (PrefixHashes state) (NamespacedName (GetPod pod)),
                      RecordPrefixCacheMatch
                        (word_of_int (lookup0 (PrefixCacheServers state) (NamespacedName (GetPod pod)))
                           * HashBlockSize (config p))
                        (word_of_int (int (length (PrefixHashes state))) * HashBlockSize (config p))])"
proof (cases "ReadPluginStateKey (pluginState p) (RequestId request) PrefixCachePluginType")
  case (Inl err)
  then show ?thesis using assms by (simp add: PreRequest_def Delete_def Let_def)
next
  case (Inr state)
  then show ?thesis using assms by (simp add: PreRequest_def Delete_def Let_def)
qed

text \<open>The theorem at a request whose state is not in the store: the read fails, the error
  is logged, the store holds nothing for the request and the indexer is unchanged.  And
  at a request whose state is in the store: the hashes are added, the match is recorded
  and the store holds nothing for the request.\<close>

theorem PreRequest_deletes_state_witness:
  "ProfileResults sampleResult (PrimaryProfileName sampleResult) = Some \<lparr>TargetPods = [samplePod]\<rparr>
   \<and> TargetPods \<lparr>TargetPods = [samplePod]\<rparr> = samplePod # []
   \<and> ReadPluginStateKey (pluginState samplePlugin) (RequestId (sampleRequest ''abcd'')) PrefixCachePluginType
       = Inl NotFound
   \<and> (\<exists>p'. PreRequest sampleIndexer samplePlugin (sampleRequest ''abcd'') sampleResult 8000
              = Return (p', [LogError NotFound ''req-1''])
           \<and> pluginState p' (''req-1'', PrefixCachePluginType) = None
           \<and> indexer p' = indexer samplePlugin)
   \<and> ReadPluginStateKey
       (pluginState (samplePlugin\<lparr>pluginState :=
          Write Map.empty ''req-1'' PrefixCachePluginType
            (PrefixState \<lparr>PrefixHashes = [1, 2], PrefixCacheServers = [serverA \<mapsto> 1]\<rparr>)\<rparr>))
       (RequestId (sampleRequest ''abcd'')) PrefixCachePluginType
     = Inr \<lparr>PrefixHashes = [1, 2], PrefixCacheServers = [serverA \<mapsto> 1]\<rparr>
   \<and> (\<exists>p'. PreRequest sampleIndexer
              (samplePlugin\<lparr>pluginState :=
                 Write Map.empty ''req-1'' PrefixCachePluginType
                   (PrefixState \<lparr>PrefixHashes = [1, 2], PrefixCacheServers = [serverA \<mapsto> 1]\<rparr>)\<rparr>)
              (sampleRequest ''abcd'') sampleResult 8000
            = Return (p', [IndexerAdd [1, 2] serverA, RecordPrefixCacheMatch 2 4])
          \<and> pluginState p' (''req-1'', PrefixCachePluginType) = None)"
proof -
  have a: "ProfileResults sampleResult (PrimaryProfileName sampleResult) = Some \<lparr>TargetPods = [samplePod]\<rparr>"
    by (simp add: sampleResult_def)
  have b: "TargetPods \<lparr>TargetPods = [samplePod]\<rparr> = samplePod # []" by simp
  have c: "ReadPluginStateKey (pluginState samplePlugin) (RequestId (sampleRequest ''abcd''))
             PrefixCachePluginType = Inl NotFound"
    by (simp add: ReadPluginStateKey_def samplePlugin_def)
  have rid: "RequestId (sampleRequest ''abcd'') = ''req-1''" by (simp add: sampleRequest_def)
  from PreRequest_deletes_state [OF a b, of sampleIndexer samplePlugin "sampleRequest ''abcd''" 8000]
  obtain p' effects where
    r: "PreRequest sampleIndexer samplePlugin (sampleRequest ''abcd'') sampleResult 8000
          = Return (p', effects)"
    and k: "\<forall>key. pluginState p' (RequestId (sampleRequest ''abcd''), key) = None"
    and e: "case ReadPluginStateKey (pluginState samplePlugin) (RequestId (sampleRequest ''abcd''))
                   PrefixCachePluginType of
               Inl err \<Rightarrow> indexer p' = indexer samplePlugin
                            \<and> effects = [LogError err (RequestId (sampleRequest ''abcd''))]
             | Inr state \<Rightarrow>
                 indexer p' = Add sampleIndexer (indexer samplePlugin) (PrefixHashes state)
                                (NamespacedName (GetPod samplePod))
                 \<and> effects =
                     [IndexerAdd (PrefixHashes state) (NamespacedName (GetPod samplePod)),
                      RecordPrefixCacheMatch
                        (word_of_int (lookup0 (PrefixCacheServers state) (NamespacedName (GetPod samplePod)))
                           * HashBlockSize (config samplePlugin))
                        (word_of_int (int (length (PrefixHashes state))) * HashBlockSize (config samplePlugin))]"
    by blast
  have c': "ReadPluginStateKey (pluginState samplePlugin) ''req-1'' PrefixCachePluginType = Inl NotFound"
    using c by (simp only: rid)
  from e have e': "indexer p' = indexer samplePlugin \<and> effects = [LogError NotFound ''req-1'']"
    by (simp only: rid c' sum.case)
  from k have "pluginState p' (''req-1'', PrefixCachePluginType) = None"
    unfolding rid by blast
  with r e' have failed:
    "\<exists>p'. PreRequest sampleIndexer samplePlugin (sampleRequest ''abcd'') sampleResult 8000
              = Return (p', [LogError NotFound ''req-1''])
           \<and> pluginState p' (''req-1'', PrefixCachePluginType) = None
           \<and> indexer p' = indexer samplePlugin"
    by blast
  let ?st = "\<lparr>PrefixHashes = [1, 2], PrefixCacheServers = [serverA \<mapsto> 1]\<rparr>"
  let ?p = "samplePlugin\<lparr>pluginState := Write Map.empty ''req-1'' PrefixCachePluginType (PrefixState ?st)\<rparr>"
  have cs: "ReadPluginStateKey (pluginState ?p) ''req-1'' PrefixCachePluginType = Inr ?st"
    by (simp add: ReadPluginStateKey_def Write_def)
  from PreRequest_deletes_state [OF a b, of sampleIndexer ?p "sampleRequest ''abcd''" 8000]
  obtain q' effects' where
    rs: "PreRequest sampleIndexer ?p (sampleRequest ''abcd'') sampleResult 8000 = Return (q', effects')"
    and ks: "\<forall>key. pluginState q' (RequestId (sampleRequest ''abcd''), key) = None"
    and es: "case ReadPluginStateKey (pluginState ?p) (RequestId (sampleRequest ''abcd''))
                   PrefixCachePluginType of
               Inl err \<Rightarrow> indexer q' = indexer ?p
                            \<and> effects' = [LogError err (RequestId (sampleRequest ''abcd''))]
             | Inr state \<Rightarrow>
                 indexer q' = Add sampleIndexer (indexer ?p) (PrefixHashes state)
                                (NamespacedName (GetPod samplePod))
                 \<and> effects' =
                     [IndexerAdd (PrefixHashes state) (NamespacedName (GetPod samplePod)),
                      RecordPrefixCacheMatch
                        (word_of_int (lookup0 (PrefixCacheServers state) (NamespacedName (GetPod samplePod)))
                           * HashBlockSize (config ?p))
                        (word_of_int (int (length (PrefixHashes state))) * HashBlockSize (config ?p))]"
    by blast
  from es have "effects' = [IndexerAdd [1, 2] serverA, RecordPrefixCacheMatch 2 4]"
    unfolding rid cs by (simp add: samplePod_def samplePlugin_def lookup0_def)
  moreover from ks have "pluginState q' (''req-1'', PrefixCachePluginType) = None"
    unfolding rid by blast
  ultimately have succeeded:
    "\<exists>p'. PreRequest sampleIndexer ?p (sampleRequest ''abcd'') sampleResult 8000
            = Return (p', [IndexerAdd [1, 2] serverA, RecordPrefixCacheMatch 2 4])
          \<and> pluginState p' (''req-1'', PrefixCachePluginType) = None"
    using rs by blast
  have cs': "ReadPluginStateKey (pluginState ?p) (RequestId (sampleRequest ''abcd''))
               PrefixCachePluginType = Inr ?st"
    by (simp add: rid ReadPluginStateKey_def Write_def)
  from a b c failed cs' succeeded show ?thesis by blast
qed

text \<open>
  Claim C9.  \<open>getCandidatePodsForScheduling\<close> panics exactly when the request metadata
  holds, under the subset filter namespace and key, a list with an element that is not a
  string: each element is converted with the one-value type assertion.  So it returns
  whenever every element of a present list is a string, and it panics for instance on the
  list of the one object \<open>{endpoint: "10.0.0.1:8080"}\<close>.
\<close>

theorem getCandidatePodsForScheduling_panics:
  "((\<exists>e. getCandidatePodsForScheduling env d requestMetadata = Panic e) \<longleftrightarrow>
      (\<exists>subsetMap endpointSubsetList.
          map_of requestMetadata (SubsetFilterNamespace env) = Some (AMap subsetMap)
        \<and> map_of subsetMap (SubsetFilterKey env) = Some (AList endpointSubsetList)
        \<and> (\<exists>endpoint \<in> set endpointSubsetList. \<not> isString endpoint)))
   \<and> getCandidatePodsForScheduling env d
         [(SubsetFilterNamespace env,
           AMap [(SubsetFilterKey env,
                  AList [AMap [(''endpoint'', AString ''10.0.0.1:8080'')]])])]
       = Panic InterfaceConversion"
proof
  show "(\<exists>e. getCandidatePodsForScheduling env d requestMetadata = Panic e) \<longleftrightarrow>
      (\<exists>subsetMap endpointSubsetList.
          map_of requestMetadata (SubsetFilterNamespace env) = Some (AMap subsetMap)
        \<and> map_of subsetMap (SubsetFilterKey env) = Some (AList endpointSubsetList)
        \<and> (\<exists>endpoint \<in> set endpointSubsetList. \<not> isString endpoint))"
  proof (cases "assertMap (map_of requestMetadata (SubsetFilterNamespace env))")
    case None
    then have "\<And>subsetMap. map_of requestMetadata (SubsetFilterNamespace env) \<noteq> Some (AMap subsetMap)"
      by (auto simp: assertMap_def)
    then show ?thesis using None by (simp add: getCandidatePodsForScheduling_def)
  next
    case (Some subsetMap)
    then have sm: "map_of requestMetadata (SubsetFilterNamespace env) = Some (AMap subsetMap)"
      by (auto simp: assertMap_def split: option.splits any.splits)
    show ?thesis
    proof (cases "assertList (map_of subsetMap (SubsetFilterKey env))")
      case None
      then have "\<And>l. map_of subsetMap (SubsetFilterKey env) \<noteq> Some (AList l)"
        by (auto simp: assertList_def)
      then show ?thesis using None Some sm by (simp add: getCandidatePodsForScheduling_def)
    next
      case (Some l)
      then have sl: "map_of subsetMap (SubsetFilterKey env) = Some (AList l)"
        by (auto simp: assertList_def split: option.splits any.splits)
      have "(\<exists>e. getCandidatePodsForScheduling env d requestMetadata = Panic e)
              \<longleftrightarrow> (\<exists>e. endpointAddresses l [] = Panic e)"
        using \<open>assertMap _ = Some subsetMap\<close> Some
        by (cases l) (auto simp: getCandidatePodsForScheduling_def split: outcome.splits)
      also have "\<dots> \<longleftrightarrow> (\<exists>v \<in> set l. \<not> isString v)"
        by (rule endpointAddresses_Panic_iff)
      finally show ?thesis using sm sl by simp
    qed
  qed
next
  show "getCandidatePodsForScheduling env d
         [(SubsetFilterNamespace env,
           AMap [(SubsetFilterKey env,
                  AList [AMap [(''endpoint'', AString ''10.0.0.1:8080'')]])])]
       = Panic InterfaceConversion"
    by (simp add: getCandidatePodsForScheduling_def assertMap_def assertList_def)
qed

text \<open>
  Claim C10, as stated, says that \<open>hashPrompt\<close> does not terminate at block size 0.
  It does: the capacity \<open>len(userInput) / cacheBlockSize\<close> of the result is computed
  before the loop, and the division panics.
\<close>

theorem hashPrompt_zero_block_size_panics:
  "hashPrompt sampleHash sampleMarshal (Some (sampleRequest ''hello'')) 0 256
     = Some (Panic IntegerDivideByZero)"
  by (simp add: hashPrompt_def sampleRequest_def sampleData_def getUserInputBytes_def bytesOf_def
        hashBlocks_def)

text \<open>
  Claim C10, amended.  \<open>hashPrompt\<close> terminates for every request, every block size and
  every block count: it returns or it panics.  At block size 0 it returns no hashes (no
  request data, or the user input cannot be read) or panics (nil dereference reading the
  user input, or integer divide by zero computing the capacity); the block loop, which
  on its own would never exit at block size 0, is not entered.
\<close>

theorem hashPrompt_terminates:
  "(\<exists>r. hashPrompt xxhash jsonMarshal request cacheBlockSize maxPrefixBlocks = Some r)
   \<and> hashPrompt xxhash jsonMarshal request 0 maxPrefixBlocks
       \<in> {Some (Return []), Some (Panic NilDereference), Some (Panic IntegerDivideByZero)}
   \<and> hashLoop xxhash userInput 0 0 prevBlockHash res = None"
proof -
  have "hashPrompt xxhash jsonMarshal request 0 maxPrefixBlocks
       \<in> {Some (Return []), Some (Panic NilDereference), Some (Panic IntegerDivideByZero)}"
    by (simp add: hashPrompt_def hashBlocks_def getUserInputBytes_def
          split: option.splits outcome.splits sum.splits)
  then show ?thesis
    using hashPrompt_total hashLoop_zero_diverges by blast
qed

end
